theory Spec2Isabelle
  imports Complex_Main
begin

section \<open>JavaScript numbers\<close>

text \<open>
  The axis model computes with JavaScript numbers. They are modelled as exact
  rationals together with the three special values that the code can produce by
  dividing by zero or taking a remainder by zero: \<open>NaN\<close>, \<open>Infinity\<close> and
  \<open>-Infinity\<close>. Rounding of binary floating point and the sign of zero are not
  modelled: every finite operation is exact. The value \<open>undefined\<close> of an absent
  number is kept apart as \<open>None\<close> of an option type wherever the code tests for it.

  Comparisons, the choice of a branch and the order of the operations are the same in
  exact and in floating-point arithmetic, and the values computed are the same where
  the floating-point operations are exact, as they are on integers below \<open>2^53\<close>. The
  lemmas on the arithmetic of the code are proved for all rationals. A theorem that
  gives the value of a computation for a class of inputs is stated for a class on which
  the floating-point operations are exact; the other theorems say which operations of
  the code produce a result, or compare results, and do not depend on what an
  operation rounds to.
\<close>

datatype number = Num rat | NaN | PosInfinity | NegInfinity

instantiation number :: "{uminus, plus, minus, times, inverse, modulo, abs, ord}"
begin

fun uminus_number :: "number \<Rightarrow> number" where
  "uminus_number (Num a) = Num (- a)"
| "uminus_number NaN = NaN"
| "uminus_number PosInfinity = NegInfinity"
| "uminus_number NegInfinity = PosInfinity"

fun plus_number :: "number \<Rightarrow> number \<Rightarrow> number" where
  "plus_number (Num a) (Num b) = Num (a + b)"
| "plus_number NaN y = NaN"
| "plus_number x NaN = NaN"
| "plus_number PosInfinity NegInfinity = NaN"
| "plus_number NegInfinity PosInfinity = NaN"
| "plus_number PosInfinity y = PosInfinity"
| "plus_number x PosInfinity = PosInfinity"
| "plus_number NegInfinity y = NegInfinity"
| "plus_number x NegInfinity = NegInfinity"

definition minus_number :: "number \<Rightarrow> number \<Rightarrow> number" where
  "minus_number x y = x + (- y)"

fun times_number :: "number \<Rightarrow> number \<Rightarrow> number" where
  "times_number (Num a) (Num b) = Num (a * b)"
| "times_number NaN y = NaN"
| "times_number x NaN = NaN"
| "times_number (Num a) PosInfinity =
     (if a = 0 then NaN else if 0 < a then PosInfinity else NegInfinity)"
| "times_number (Num a) NegInfinity =
     (if a = 0 then NaN else if 0 < a then NegInfinity else PosInfinity)"
| "times_number PosInfinity (Num b) =
     (if b = 0 then NaN else if 0 < b then PosInfinity else NegInfinity)"
| "times_number NegInfinity (Num b) =
     (if b = 0 then NaN else if 0 < b then NegInfinity else PosInfinity)"
| "times_number PosInfinity PosInfinity = PosInfinity"
| "times_number PosInfinity NegInfinity = NegInfinity"
| "times_number NegInfinity PosInfinity = NegInfinity"
| "times_number NegInfinity NegInfinity = PosInfinity"

fun divide_number :: "number \<Rightarrow> number \<Rightarrow> number" where
  "divide_number (Num a) (Num b) =
     (if b = 0 then (if a = 0 then NaN else if 0 < a then PosInfinity else NegInfinity)
      else Num (a / b))"
| "divide_number NaN y = NaN"
| "divide_number x NaN = NaN"
| "divide_number (Num a) y = Num 0"
| "divide_number PosInfinity (Num b) = (if 0 \<le> b then PosInfinity else NegInfinity)"
| "divide_number NegInfinity (Num b) = (if 0 \<le> b then NegInfinity else PosInfinity)"
| "divide_number x y = NaN"

definition inverse_number :: "number \<Rightarrow> number" where
  "inverse_number x = divide (Num 1) x"

text \<open>The remainder operator \<open>%\<close>: the result has the sign of the dividend.\<close>

fun modulo_number :: "number \<Rightarrow> number \<Rightarrow> number" where
  "modulo_number (Num a) (Num b) =
     (if b = 0 then NaN
      else Num (a - b * of_int (if 0 \<le> a / b then \<lfloor>a / b\<rfloor> else \<lceil>a / b\<rceil>)))"
| "modulo_number NaN y = NaN"
| "modulo_number x NaN = NaN"
| "modulo_number (Num a) y = Num a"
| "modulo_number x y = NaN"

fun abs_number :: "number \<Rightarrow> number" where
  "abs_number (Num a) = Num \<bar>a\<bar>"
| "abs_number NaN = NaN"
| "abs_number x = PosInfinity"

fun less_number :: "number \<Rightarrow> number \<Rightarrow> bool" where
  "less_number (Num a) (Num b) = (a < b)"
| "less_number NaN y = False"
| "less_number x NaN = False"
| "less_number x NegInfinity = False"
| "less_number PosInfinity y = False"
| "less_number x y = True"

text \<open>Strict equality \<open>===\<close> of two numbers: \<open>NaN\<close> equals nothing.\<close>

definition less_eq_number :: "number \<Rightarrow> number \<Rightarrow> bool" where
  "less_eq_number x y = (x < y \<or> (x = y \<and> x \<noteq> NaN))"

instance ..

end

definition strict_eq :: "number \<Rightarrow> number \<Rightarrow> bool" where
  "strict_eq x y = (x = y \<and> x \<noteq> NaN)"

text \<open>Truthiness of a number, as tested by \<open>||\<close> and \<open>? :\<close>.\<close>

fun truthy :: "number \<Rightarrow> bool" where
  "truthy (Num a) = (a \<noteq> 0)"
| "truthy NaN = False"
| "truthy x = True"

fun Math_floor :: "number \<Rightarrow> number" where
  "Math_floor (Num a) = Num (of_int \<lfloor>a\<rfloor>)"
| "Math_floor x = x"

text \<open>
  The first significant decimal digit of a positive number: the number is scaled by
  tens into the interval from 1 to 10. The fuel, 400 in \<open>parseInt\<close>, covers every
  magnitude of a double (from \<open>5e-324\<close> to \<open>1.8e308\<close>).
\<close>

fun leadingDigit :: "nat \<Rightarrow> rat \<Rightarrow> int" where
  "leadingDigit 0 a = \<lfloor>a\<rfloor>"
| "leadingDigit (Suc n) a =
     (if a < 1 then leadingDigit n (a * 10)
      else if 10 \<le> a then leadingDigit n (a / 10)
      else \<lfloor>a\<rfloor>)"

text \<open>
  \<open>parseInt(x, 10)\<close> of a number reads the integer at the head of the printed form of
  \<open>x\<close>. JavaScript prints zero and the magnitudes from \<open>1e-6\<close> up to, not including,
  \<open>1e21\<close> in plain decimal notation, of which \<open>parseInt\<close> reads the integer part: the
  number truncated towards zero. It prints every other finite magnitude in exponent
  notation (\<open>1.6666666666666667e-7\<close>, \<open>1e+21\<close>), of which \<open>parseInt\<close> reads the digit
  before the point: the first significant digit, with the sign of the number. Of
  \<open>NaN\<close>, \<open>Infinity\<close> and \<open>-Infinity\<close> it reads no digit and gives \<open>NaN\<close>.
\<close>

fun parseInt :: "number \<Rightarrow> number" where
  "parseInt (Num a) =
     (if a = 0 \<or> (1 / 10 ^ 6 \<le> \<bar>a\<bar> \<and> \<bar>a\<bar> < 10 ^ 21)
      then Num (of_int (if 0 \<le> a then \<lfloor>a\<rfloor> else \<lceil>a\<rceil>))
      else Num (of_int (if 0 < a then leadingDigit 400 \<bar>a\<bar> else - leadingDigit 400 \<bar>a\<bar>)))"
| "parseInt x = NaN"

section \<open>The helpers of \<open>ne.util\<close> used by the axis model\<close>

text \<open>
  The digits after the decimal point in the printed form of a number. The printed
  form is taken to be the exact decimal expansion, cut after twenty digits (JavaScript
  prints at most seventeen significant digits); the special values print without a point.
\<close>

fun decimalDigits :: "nat \<Rightarrow> rat \<Rightarrow> nat" where
  "decimalDigits 0 r = 0"
| "decimalDigits (Suc n) r =
     (if r = of_int \<lfloor>r\<rfloor> then 0 else Suc (decimalDigits n (r * 10)))"

text \<open>
  Modelled from the spec: \<open>ne.util.lengthAfterPoint\<close> (called \<open>underPointLength\<close> in
  \<open>_getComparingValue\<close>), the spec's \<open>decimalPlaces\<close>; its source file is missing.
\<close>

fun ne_util_lengthAfterPoint :: "number \<Rightarrow> nat" where
  "ne_util_lengthAfterPoint (Num r) = decimalDigits 20 r"
| "ne_util_lengthAfterPoint x = 0"

text \<open>
  Modelled from the spec: \<open>ne.util.findMultipleNum\<close>, the power of ten
  \<open>10^decimalPlaces\<close> that makes all its arguments integers; its source file is
  missing.
\<close>

definition ne_util_findMultipleNum :: "number list \<Rightarrow> number" where
  "ne_util_findMultipleNum args = Num (10 ^ fold max (map ne_util_lengthAfterPoint args) 0)"

text \<open>
  Modelled from the spec: \<open>ne.util.mod\<close>, \<open>addition\<close>, \<open>subtraction\<close> and
  \<open>division\<close>, the arithmetic on an integer-scaled intermediate (multiply by
  \<open>10^decimalPlaces\<close>, operate, divide back); their source file is missing.
\<close>

definition ne_util_mod :: "number \<Rightarrow> number \<Rightarrow> number" where
  "ne_util_mod target modNum =
     (let multipleNum = ne_util_findMultipleNum [modNum]
      in ((target * multipleNum) mod (modNum * multipleNum)) / multipleNum)"

definition ne_util_addition :: "number \<Rightarrow> number \<Rightarrow> number" where
  "ne_util_addition a b =
     (let multipleNum = ne_util_findMultipleNum [a, b]
      in ((a * multipleNum) + (b * multipleNum)) / multipleNum)"

definition ne_util_subtraction :: "number \<Rightarrow> number \<Rightarrow> number" where
  "ne_util_subtraction a b =
     (let multipleNum = ne_util_findMultipleNum [a, b]
      in ((a * multipleNum) - (b * multipleNum)) / multipleNum)"

definition ne_util_division :: "number \<Rightarrow> number \<Rightarrow> number" where
  "ne_util_division a b =
     (let multipleNum = ne_util_findMultipleNum [a, b]
      in (a * multipleNum) / (b * multipleNum))"

text \<open>
  Modelled from the spec: \<open>ne.util.range(start, stop, step)\<close>, the arithmetic
  sequence from \<open>start\<close> at spacing \<open>step\<close> that stays below \<open>stop\<close>; a missing or
  zero step is 1; its source file is missing. The loop
  \<^verbatim>\<open>while (start * flag < stop) { arr.push(start); start += step; }\<close>
  need not end (an infinite \<open>stop\<close>), so not returning is the value \<open>None\<close>. An array
  is a list of any length: the limit of \<open>2^32 - 1\<close> elements of a JavaScript array is
  not modelled.
\<close>

partial_function (option) range_loop ::
  "number \<Rightarrow> number \<Rightarrow> number \<Rightarrow> number \<Rightarrow> number list \<Rightarrow> number list option" where
  "range_loop start flag stop step arr =
     (if start * flag < stop then range_loop (start + step) flag stop step (arr @ [start])
      else Some arr)"

declare range_loop.simps [code]

definition ne_util_range :: "number \<Rightarrow> number \<Rightarrow> number option \<Rightarrow> number list option" where
  "ne_util_range start stop step =
     (let step1 = (case step of None \<Rightarrow> Num 1 | Some s \<Rightarrow> if truthy s then s else Num 1);
          flag = (if step1 < Num 0 then Num (- 1) else Num 1)
      in range_loop start flag (stop * flag) step1 [])"


text \<open>
  \<open>ne.util.min\<close> and \<open>ne.util.max\<close> of an array of numbers: the first element, replaced
  by each later one that compares strictly below (above) it. Of an empty array they give
  \<open>undefined\<close>, which every arithmetic operation and comparison of the axis model then
  treats as \<open>NaN\<close>.
\<close>

fun ne_util_min :: "number list \<Rightarrow> number" where
  "ne_util_min [] = NaN"
| "ne_util_min (x # xs) = fold (\<lambda>item result. if item < result then item else result) xs x"

fun ne_util_max :: "number list \<Rightarrow> number" where
  "ne_util_max [] = NaN"
| "ne_util_max (x # xs) = fold (\<lambda>item result. if result < item then item else result) xs x"

section \<open>The axis model (\<open>axisModel.js\<close>)\<close>

datatype chart_type = CHART_TYPE_LINE | CHART_TYPE_OTHER

record options =
  options_min :: "number option"
  options_max :: "number option"
  options_tickCount :: "number option"

record dimension =
  width :: number
  height :: number

record scale =
  scale_min :: number
  scale_max :: number

record tickInfo =
  scale :: scale
  step :: number
  tickCount :: number
  labels :: "number list"

record intTypeInfo =
  info_min :: number
  info_max :: number
  info_options :: options
  divideNum :: number

text \<open>The fields of the axis model that the tick computation reads.\<close>

record axisModel =
  isVertical :: bool
  chartType :: chart_type

text \<open>
  The errors that the tick computation throws: the \<open>TypeError\<close> of reading a field of
  \<open>undefined\<close>, and the \<open>RangeError\<close> of a recursion that exhausts the call stack.
\<close>

datatype error = TypeError | RangeError

definition MIN_PIXEL_STEP_SIZE :: number where "MIN_PIXEL_STEP_SIZE = Num 40"
definition MAX_PIXEL_STEP_SIZE :: number where "MAX_PIXEL_STEP_SIZE = Num 60"
definition CHART_TITLE_HEIGHT :: number where "CHART_TITLE_HEIGHT = Num 80"
definition VERTICAL_AXIS_WIDTH :: number where "VERTICAL_AXIS_WIDTH = Num 90"
definition LEGEND_WIDTH :: number where "LEGEND_WIDTH = Num 90"

definition getBaseSize :: "axisModel \<Rightarrow> dimension \<Rightarrow> number" where
  "getBaseSize this dimension =
     (if isVertical this then height dimension - CHART_TITLE_HEIGHT
      else width dimension - VERTICAL_AXIS_WIDTH - LEGEND_WIDTH)"

definition getCandidateTickCounts :: "axisModel \<Rightarrow> dimension \<Rightarrow> number list option" where
  "getCandidateTickCounts this chartDimension =
     (let baseSize = getBaseSize this chartDimension;
          start = parseInt (baseSize / MAX_PIXEL_STEP_SIZE);
          end' = parseInt (baseSize / MIN_PIXEL_STEP_SIZE) + Num 1
      in ne_util_range start end' None)"

definition getComparingValue :: "scale \<Rightarrow> number \<Rightarrow> number \<Rightarrow> number \<Rightarrow> number" where
  "getComparingValue scl stp mn mx =
     (let diffMax = \<bar>scale_max scl - mx\<bar>;
          diffMin = \<bar>mn - scale_min scl\<bar>;
          weight = Num (10 ^ ne_util_lengthAfterPoint stp)
      in (diffMax + diffMin) * weight)"

text \<open>
  The loop of \<open>_selectTickInfo\<close> over the candidates after the first; the state is the
  pair of the selected tick info and its comparing value.
\<close>

fun selectTickInfo_loop ::
  "number \<Rightarrow> number \<Rightarrow> tickInfo list \<Rightarrow> tickInfo \<times> number \<Rightarrow> tickInfo \<times> number" where
  "selectTickInfo_loop mn mx [] (ti, minValue) = (ti, minValue)"
| "selectTickInfo_loop mn mx (info # rest) (ti, minValue) =
     (let compareValue = getComparingValue (scale info) (step info) mn mx
      in if compareValue < minValue then selectTickInfo_loop mn mx rest (info, compareValue)
         else selectTickInfo_loop mn mx rest (ti, minValue))"

text \<open>
  Of an empty candidate array, \<open>candidates[0]\<close> is \<open>undefined\<close> and reading its \<open>scale\<close>
  throws a \<open>TypeError\<close>.
\<close>

fun selectTickInfo :: "number \<Rightarrow> number \<Rightarrow> tickInfo list \<Rightarrow> error + tickInfo" where
  "selectTickInfo mn mx [] = Inl TypeError"
| "selectTickInfo mn mx (ti # rest) =
     Inr (fst (selectTickInfo_loop mn mx rest
                (ti, getComparingValue (scale ti) (step ti) mn mx)))"

definition makeIntegerTypeInfo :: "number \<Rightarrow> number \<Rightarrow> options \<Rightarrow> intTypeInfo" where
  "makeIntegerTypeInfo mn mx opts =
     (if Num 1 \<le> \<bar>mn\<bar> \<or> Num 1 \<le> \<bar>mx\<bar> then
        \<lparr>info_min = mn, info_max = mx, info_options = opts, divideNum = Num 1\<rparr>
      else
        let multipleNum = ne_util_findMultipleNum [mn, mx];
            changeMin = (case options_min opts of
                           None \<Rightarrow> None
                         | Some m \<Rightarrow> if truthy m then Some (m * multipleNum) else None);
            changeMax = (case options_max opts of
                           None \<Rightarrow> None
                         | Some m \<Rightarrow> if truthy m then Some (m * multipleNum) else None)
        in \<lparr>info_min = mn * multipleNum, info_max = mx * multipleNum,
            info_options = \<lparr>options_min = changeMin, options_max = changeMax,
                             options_tickCount = None\<rparr>,
            divideNum = multipleNum\<rparr>)"

definition makeOriginalTypeTickInfo :: "tickInfo \<Rightarrow> number \<Rightarrow> tickInfo" where
  "makeOriginalTypeTickInfo ti dn =
     (if strict_eq dn (Num 1) then ti
      else \<lparr>scale = \<lparr>scale_min = ne_util_division (scale_min (scale ti)) dn,
                      scale_max = ne_util_division (scale_max (scale ti)) dn\<rparr>,
            step = ne_util_division (step ti) dn,
            tickCount = tickCount ti,
            labels = map (\<lambda>label. ne_util_division label dn) (labels ti)\<rparr>)"

text \<open>
  The loop of \<open>_normalizeStep\<close> over the ladder \<open>[1, 2, 5, 10]\<close>; the state is
  \<open>standard\<close>, and \<open>return false\<close> leaves the loop.
\<close>

fun standard_loop :: "number \<Rightarrow> number list \<Rightarrow> number \<Rightarrow> number" where
  "standard_loop stp [] standard = standard"
| "standard_loop stp (num # nums) standard =
     (if stp < num then (if Num 1 < num then num else standard)
      else if strict_eq num (Num 10) then standard_loop stp nums (Num 10)
      else standard_loop stp nums standard)"

text \<open>
  \<open>_normalizeStep\<close> calls itself on \<open>step * 10\<close> while the step is below 1, which never
  ends for a negative step: the recursion that never ends is the value \<open>None\<close>. The
  function has no loop that could go on for ever, so \<open>None\<close> is always a recursion
  without end, which in JavaScript exhausts the call stack: the caller of
  \<open>_normalizeStep\<close>, \<open>_makeTickInfo\<close>, turns \<open>None\<close> into the \<open>RangeError\<close> thrown.
  The factor \<open>0.1\<close> is the exact tenth.
\<close>

partial_function (option) normalizeStep :: "number \<Rightarrow> number option" where
  "normalizeStep stp =
     (if strict_eq stp (Num 0) then Some stp
      else
        let standard = standard_loop stp [Num 1, Num 2, Num 5, Num 10] (Num 0)
        in if standard < Num 1 then
             Option.bind (normalizeStep (stp * Num 10)) (\<lambda>n. Some (n * Num (1 / 10)))
           else
             let md = ne_util_mod stp standard
             in Some (ne_util_addition stp (if Num 0 < md then standard - md else Num 0)))"

declare normalizeStep.simps [code]

definition normalizeMin :: "number \<Rightarrow> number \<Rightarrow> number" where
  "normalizeMin mn stp =
     (let md = ne_util_mod mn stp
      in if strict_eq md (Num 0) then mn
         else ne_util_subtraction mn (if Num 0 \<le> mn then md else stp + md))"

definition calculateScale :: "number \<Rightarrow> number \<Rightarrow> scale" where
  "calculateScale mn0 mx0 =
     (let (saveMin, mn, mx) =
            (if mn0 < Num 0 then (mn0, Num 0, mx0 - mn0) else (Num 0, mn0, mx0));
          iodValue = (mx - mn) / Num 20
      in \<lparr>scale_min = (if mn < mx / Num 6 then Num 0 + saveMin else mn - iodValue + saveMin),
          scale_max = mx + iodValue + saveMin\<rparr>)"

text \<open>
  Modelled from the spec: \<open>getScaleStep\<close> of the base model,
  \<open>step = (scale.max - scale.min) / (tickCount - 1)\<close>; its source file is missing.
\<close>

definition getScaleStep :: "scale \<Rightarrow> number \<Rightarrow> number" where
  "getScaleStep scl cnt = (scale_max scl - scale_min scl) / (cnt - Num 1)"

definition makeLabelsFromScale :: "scale \<Rightarrow> number \<Rightarrow> number list option" where
  "makeLabelsFromScale scl stp =
     (let multipleNum = ne_util_findMultipleNum [stp];
          mn = scale_min scl * multipleNum;
          mx = scale_max scl * multipleNum
      in map_option (map (\<lambda>label. label / multipleNum))
           (ne_util_range mn (mx + Num 1) (Some (stp * multipleNum))))"


text \<open>
  The loop of \<open>_minimizeTickScale\<close> over the tick indexes; the state is the scale, which
  the loop body updates in place, and \<open>return false\<close> leaves the loop. \<open>tickMin\<close> and
  \<open>tickMax\<close> are the bounds of the scale before the loop.
\<close>

fun minimizeTickScale_loop ::
  "number \<Rightarrow> number \<Rightarrow> number \<Rightarrow> number \<Rightarrow> number \<Rightarrow> options \<Rightarrow> number list \<Rightarrow> scale \<Rightarrow> scale" where
  "minimizeTickScale_loop userMin userMax stp tickMin tickMax opts [] scl = scl"
| "minimizeTickScale_loop userMin userMax stp tickMin tickMax opts (tickIndex # ticks) scl =
     (let isUndefinedMin = (options_min opts = None);
          isUndefinedMax = (options_max opts = None);
          curStep = stp * tickIndex;
          curMin = tickMin + curStep;
          curMax = tickMax - curStep
      in if userMin \<le> curMin \<and> curMax \<le> userMax then scl
         else
           let scl1 = (if (isUndefinedMin \<and> curMin < userMin) \<or>
                          (case options_min opts of None \<Rightarrow> False | Some m \<Rightarrow> curMin \<le> m)
                       then scl\<lparr>scale_min := curMin\<rparr> else scl);
               scl2 = (if (isUndefinedMin \<and> userMax < curMax) \<or>
                          (case options_max opts of None \<Rightarrow> False | Some m \<Rightarrow> m \<le> curMax)
                       then scl1\<lparr>scale_max := curMax\<rparr> else scl1)
           in minimizeTickScale_loop userMin userMax stp tickMin tickMax opts ticks scl2)"

definition minimizeTickScale ::
  "number \<Rightarrow> number \<Rightarrow> tickInfo \<Rightarrow> options \<Rightarrow> tickInfo option" where
  "minimizeTickScale userMin userMax ti opts =
     (case ne_util_range (Num 1) (tickCount ti) None of
        None \<Rightarrow> None
      | Some ticks \<Rightarrow>
          let stp = step ti;
              scl = minimizeTickScale_loop userMin userMax stp
                      (scale_min (scale ti)) (scale_max (scale ti)) opts ticks (scale ti)
          in (case makeLabelsFromScale scl stp of
                None \<Rightarrow> None
              | Some lbls \<Rightarrow>
                  Some \<lparr>scale = scl, step = stp, tickCount = Num (of_nat (length lbls)),
                        labels = lbls\<rparr>))"

definition divideTickStep :: "tickInfo \<Rightarrow> number \<Rightarrow> tickInfo option" where
  "divideTickStep ti orgTickCount =
     (let stp = step ti;
          scl = scale ti;
          tc = tickCount ti
      in if strict_eq (stp mod Num 2) (Num 0) \<and> truthy (tc mod Num 2) \<and>
            \<bar>orgTickCount - tc * Num 2\<bar> < \<bar>orgTickCount - tc\<bar>
         then
           (case makeLabelsFromScale scl (stp / Num 2) of
              None \<Rightarrow> None
            | Some lbls \<Rightarrow>
                Some (ti\<lparr>labels := lbls, tickCount := Num (of_nat (length lbls)),
                         step := stp / Num 2\<rparr>))
         else Some ti)"

text \<open>
  \<open>_makeTickInfo\<close>. The tick info handed to \<open>_minimizeTickScale\<close> has no labels yet; the
  model gives it the empty list, which \<open>_minimizeTickScale\<close> overwrites. The result is
  \<open>Some (Inl RangeError)\<close> when \<open>_normalizeStep\<close> exhausts the call stack, \<open>None\<close> when a
  loop of \<open>ne.util.range\<close> never ends, and \<open>Some (Inr tickInfo)\<close> when a tick info is
  returned.
\<close>

definition makeTickInfo ::
  "axisModel \<Rightarrow> number \<Rightarrow> number \<Rightarrow> number \<Rightarrow> number \<Rightarrow> number \<Rightarrow> bool \<Rightarrow> options
     \<Rightarrow> (error + tickInfo) option" where
  "makeTickInfo this tc mn mx userMin userMax isMinus opts =
     (let scl0 = calculateScale mn mx;
          isLineChart = (chartType this = CHART_TYPE_LINE);
          scl1 = (if isMinus
                  then \<lparr>scale_min = - scale_max scl0, scale_max = - scale_min scl0\<rparr>
                  else scl0);
          scl2 = scl1\<lparr>scale_min :=
                   (case options_min opts of
                      None \<Rightarrow> scale_min scl1
                    | Some m \<Rightarrow> if truthy m then m else scale_min scl1)\<rparr>;
          scl3 = scl2\<lparr>scale_max :=
                   (case options_max opts of
                      None \<Rightarrow> scale_max scl2
                    | Some m \<Rightarrow> if truthy m then m else scale_max scl2)\<rparr>;
          orgScaleMax = scale_max scl3;
          tmpStep = getScaleStep scl3 tc
      in case normalizeStep tmpStep of
           None \<Rightarrow> Some (Inl RangeError)
         | Some stp \<Rightarrow>
             let scl4 = scl3\<lparr>scale_min := normalizeMin (scale_min scl3) stp\<rparr>;
                 multipleNum = ne_util_findMultipleNum [stp];
                 scl5 = scl4\<lparr>scale_max :=
                          ((scale_min scl4 * multipleNum) +
                           (stp * multipleNum * (tc - Num 1))) / multipleNum\<rparr>;
                 diffMax = orgScaleMax - scale_max scl5;
                 scl6 = (if Num 0 < diffMax then
                           let modDiff = diffMax mod stp;
                               divideDiff = Math_floor (diffMax / stp)
                           in scl5\<lparr>scale_max := scale_max scl5 +
                                  stp * (if Num 0 < modDiff then divideDiff + Num 1
                                         else divideDiff)\<rparr>
                         else scl5);
                 scl7 = (if options_max opts = None \<and> strict_eq (scale_max scl6) userMax
                         then scl6\<lparr>scale_max := scale_max scl6 + stp\<rparr> else scl6);
                 scl8 = (if (isLineChart \<or> Num 0 < userMin) \<and> options_min opts = None \<and>
                            strict_eq (scale_min scl7) userMin
                         then scl7\<lparr>scale_min := scale_min scl7 - stp\<rparr> else scl7)
             in case minimizeTickScale userMin userMax
                       \<lparr>scale = scl8, step = stp, tickCount = tc, labels = []\<rparr> opts of
                  None \<Rightarrow> None
                | Some ti \<Rightarrow> map_option Inr (divideTickStep ti tc))"

text \<open>
  \<open>ne.util.map\<close> over the tick counts: the candidates in the order of the tick counts,
  unless making one of them does not return or throws, which ends the map at that tick
  count.
\<close>

fun map_candidates ::
  "(number \<Rightarrow> (error + tickInfo) option) \<Rightarrow> number list \<Rightarrow> (error + tickInfo list) option" where
  "map_candidates f [] = Some (Inr [])"
| "map_candidates f (tc # tcs) =
     (case f tc of
        None \<Rightarrow> None
      | Some (Inl e) \<Rightarrow> Some (Inl e)
      | Some (Inr ti) \<Rightarrow>
          (case map_candidates f tcs of
             None \<Rightarrow> None
           | Some (Inl e) \<Rightarrow> Some (Inl e)
           | Some (Inr tis) \<Rightarrow> Some (Inr (ti # tis))))"

definition getTickInfoCandidates ::
  "axisModel \<Rightarrow> number \<Rightarrow> number \<Rightarrow> number list \<Rightarrow> options \<Rightarrow> (error + tickInfo list) option" where
  "getTickInfoCandidates this mn0 mx0 tickCounts opts =
     (let userMin = mn0;
          userMax = mx0;
          (isMinus, mn, mx) =
            (if mn0 < Num 0 \<and> mx0 \<le> Num 0 then (True, - mx0, - mn0) else (False, mn0, mx0))
      in map_candidates (\<lambda>tc. makeTickInfo this tc mn mx userMin userMax isMinus opts)
           tickCounts)"

text \<open>
  \<open>_getTickInfo\<close>: \<open>None\<close> when the computation does not return, \<open>Some (Inl error)\<close>
  when it throws, \<open>Some (Inr tickInfo)\<close> when it returns a tick info.
\<close>

definition getTickInfo ::
  "axisModel \<Rightarrow> number \<Rightarrow> number \<Rightarrow> dimension \<Rightarrow> options \<Rightarrow> (error + tickInfo) option" where
  "getTickInfo this mn mx chartDimension opts =
     (let intInfo = makeIntegerTypeInfo mn mx opts;
          tickCounts = (case options_tickCount opts of
                          None \<Rightarrow> getCandidateTickCounts this chartDimension
                        | Some tc \<Rightarrow> if truthy tc then Some [tc]
                                    else getCandidateTickCounts this chartDimension)
      in case tickCounts of
           None \<Rightarrow> None
         | Some tcs \<Rightarrow>
             (case getTickInfoCandidates this (info_min intInfo) (info_max intInfo) tcs
                     (info_options intInfo) of
                None \<Rightarrow> None
              | Some (Inl e) \<Rightarrow> Some (Inl e)
              | Some (Inr candidates) \<Rightarrow>
                  Some (map_sum id (\<lambda>ti. makeOriginalTypeTickInfo ti (divideNum intInfo))
                          (selectTickInfo (info_min intInfo) (info_max intInfo) candidates))))"

text \<open>
  \<open>_setValueAxisData\<close>: the value groups are flattened, their minimum and maximum taken,
  and the tick info computed. (No format functions: the labels stay as they are.)
\<close>

definition setValueAxisData ::
  "axisModel \<Rightarrow> options \<Rightarrow> number list list \<Rightarrow> dimension \<Rightarrow> (error + tickInfo) option" where
  "setValueAxisData this opts groupValues chartDimension =
     (let values = concat groupValues;
          mn = ne_util_min values;
          mx = ne_util_max values
      in getTickInfo this mn mx chartDimension opts)"


section \<open>Auxiliary notions for the proofs\<close>

text \<open>
  The stages of \<open>_makeTickInfo\<close>, named for the proofs (lemma \<open>makeTickInfo_stages\<close>
  relates them to \<open>makeTickInfo\<close>): the padded scale with the overrides put in, the scale
  aligned to the step and extended to the padded maximum, and the scale moved off the
  data bounds.
\<close>

definition overriddenScale :: "number \<Rightarrow> number \<Rightarrow> bool \<Rightarrow> options \<Rightarrow> scale" where
  "overriddenScale mn mx isMinus opts =
     (let scl0 = calculateScale mn mx;
          scl1 = (if isMinus
                  then \<lparr>scale_min = - scale_max scl0, scale_max = - scale_min scl0\<rparr>
                  else scl0);
          scl2 = scl1\<lparr>scale_min :=
                   (case options_min opts of
                      None \<Rightarrow> scale_min scl1
                    | Some m \<Rightarrow> if truthy m then m else scale_min scl1)\<rparr>
      in scl2\<lparr>scale_max :=
                   (case options_max opts of
                      None \<Rightarrow> scale_max scl2
                    | Some m \<Rightarrow> if truthy m then m else scale_max scl2)\<rparr>)"

definition alignedScale :: "scale \<Rightarrow> number \<Rightarrow> number \<Rightarrow> scale" where
  "alignedScale scl3 stp tc =
     (let orgScaleMax = scale_max scl3;
          scl4 = scl3\<lparr>scale_min := normalizeMin (scale_min scl3) stp\<rparr>;
          multipleNum = ne_util_findMultipleNum [stp];
          scl5 = scl4\<lparr>scale_max :=
                   ((scale_min scl4 * multipleNum) +
                    (stp * multipleNum * (tc - Num 1))) / multipleNum\<rparr>;
          diffMax = orgScaleMax - scale_max scl5
      in if Num 0 < diffMax then
           let modDiff = diffMax mod stp;
               divideDiff = Math_floor (diffMax / stp)
           in scl5\<lparr>scale_max := scale_max scl5 +
                  stp * (if Num 0 < modDiff then divideDiff + Num 1 else divideDiff)\<rparr>
         else scl5)"

definition shiftedScale ::
  "axisModel \<Rightarrow> number \<Rightarrow> number \<Rightarrow> options \<Rightarrow> number \<Rightarrow> scale \<Rightarrow> scale" where
  "shiftedScale this userMin userMax opts stp scl6 =
     (let isLineChart = (chartType this = CHART_TYPE_LINE);
          scl7 = (if options_max opts = None \<and> strict_eq (scale_max scl6) userMax
                  then scl6\<lparr>scale_max := scale_max scl6 + stp\<rparr> else scl6)
      in if (isLineChart \<or> Num 0 < userMin) \<and> options_min opts = None \<and>
            strict_eq (scale_min scl7) userMin
         then scl7\<lparr>scale_min := scale_min scl7 - stp\<rparr> else scl7)"

section \<open>Basic facts about the pipeline\<close>

lemma map_candidates_set:
  "map_candidates f tcs = Some (Inr tis) \<Longrightarrow> ti \<in> set tis \<Longrightarrow>
   \<exists>tc\<in>set tcs. f tc = Some (Inr ti)"
  by (induction tcs arbitrary: tis) (auto split: option.splits sum.splits)

lemma selectTickInfo_loop_mem:
  "fst (selectTickInfo_loop mn mx rest (ti, v)) \<in> insert ti (set rest)"
proof (induction rest arbitrary: ti v)
  case Nil
  show ?case by simp
next
  case (Cons info rest)
  show ?case
    using Cons.IH [of info "getComparingValue (scale info) (step info) mn mx"]
      Cons.IH [of ti v]
    by (auto simp: Let_def)
qed

lemma selectTickInfo_mem:
  "selectTickInfo mn mx cands = Inr ti \<Longrightarrow> ti \<in> set cands"
proof (cases cands)
  case Nil
  assume "selectTickInfo mn mx cands = Inr ti"
  with Nil show ?thesis by simp
next
  case (Cons c rest)
  assume "selectTickInfo mn mx cands = Inr ti"
  with Cons have "ti = fst (selectTickInfo_loop mn mx rest
      (c, getComparingValue (scale c) (step c) mn mx))"
    by simp
  with selectTickInfo_loop_mem [of mn mx rest c] Cons show ?thesis
    by auto
qed

lemma getTickInfoCandidates_mem:
  assumes "getTickInfoCandidates this mn mx tcs opts = Some (Inr cands)" and "c \<in> set cands"
  shows "\<exists>tc\<in>set tcs. \<exists>a b isMinus.
           makeTickInfo this tc a b mn mx isMinus opts = Some (Inr c)"
proof -
  from assms obtain tc where "tc \<in> set tcs" and
    "(if mn < Num 0 \<and> mx \<le> Num 0
      then makeTickInfo this tc (- mx) (- mn) mn mx True opts
      else makeTickInfo this tc mn mx mn mx False opts) = Some (Inr c)"
    unfolding getTickInfoCandidates_def Let_def
    by (auto split: if_splits dest: map_candidates_set)
  then show ?thesis
    by (cases "mn < Num 0 \<and> mx \<le> Num 0") (simp_all, blast+)
qed

lemma getTickInfo_Inr:
  assumes "getTickInfo this mn mx chartDimension opts = Some (Inr ti)"
  shows "\<exists>tcs cands c.
           getTickInfoCandidates this (info_min (makeIntegerTypeInfo mn mx opts))
             (info_max (makeIntegerTypeInfo mn mx opts)) tcs
             (info_options (makeIntegerTypeInfo mn mx opts)) = Some (Inr cands) \<and>
           c \<in> set cands \<and>
           ti = makeOriginalTypeTickInfo c (divideNum (makeIntegerTypeInfo mn mx opts))"
proof -
  from assms obtain tcs cands where
    c: "getTickInfoCandidates this (info_min (makeIntegerTypeInfo mn mx opts))
             (info_max (makeIntegerTypeInfo mn mx opts)) tcs
             (info_options (makeIntegerTypeInfo mn mx opts)) = Some (Inr cands)" and
    s: "map_sum id (\<lambda>ti. makeOriginalTypeTickInfo ti (divideNum (makeIntegerTypeInfo mn mx opts)))
         (selectTickInfo (info_min (makeIntegerTypeInfo mn mx opts))
            (info_max (makeIntegerTypeInfo mn mx opts)) cands) = Inr ti"
    unfolding getTickInfo_def Let_def by (auto split: option.splits sum.splits)
  from s obtain c where "selectTickInfo (info_min (makeIntegerTypeInfo mn mx opts))
            (info_max (makeIntegerTypeInfo mn mx opts)) cands = Inr c"
    and "ti = makeOriginalTypeTickInfo c (divideNum (makeIntegerTypeInfo mn mx opts))"
    by (cases "selectTickInfo (info_min (makeIntegerTypeInfo mn mx opts))
            (info_max (makeIntegerTypeInfo mn mx opts)) cands") auto
  with c selectTickInfo_mem show ?thesis by blast
qed

text \<open>With a tick count in the options, the chart dimension is not read.\<close>

lemma getTickInfo_tickCount:
  assumes "options_tickCount opts = Some tc" and "truthy tc"
  shows "getTickInfo this mn mx chartDimension opts =
     (case getTickInfoCandidates this (info_min (makeIntegerTypeInfo mn mx opts))
              (info_max (makeIntegerTypeInfo mn mx opts)) [tc]
              (info_options (makeIntegerTypeInfo mn mx opts)) of
        None \<Rightarrow> None
      | Some (Inl e) \<Rightarrow> Some (Inl e)
      | Some (Inr candidates) \<Rightarrow>
          Some (map_sum id
                  (\<lambda>ti. makeOriginalTypeTickInfo ti (divideNum (makeIntegerTypeInfo mn mx opts)))
                  (selectTickInfo (info_min (makeIntegerTypeInfo mn mx opts))
                     (info_max (makeIntegerTypeInfo mn mx opts)) candidates)))"
  using assms by (simp add: getTickInfo_def Let_def)

lemma makeIntegerTypeInfo_large:
  "Num 1 \<le> \<bar>mn\<bar> \<or> Num 1 \<le> \<bar>mx\<bar> \<Longrightarrow>
   makeIntegerTypeInfo mn mx opts =
     \<lparr>info_min = mn, info_max = mx, info_options = opts, divideNum = Num 1\<rparr>"
  by (simp add: makeIntegerTypeInfo_def)

lemma makeOriginalTypeTickInfo_one [simp]: "makeOriginalTypeTickInfo ti (Num 1) = ti"
  by (simp add: makeOriginalTypeTickInfo_def strict_eq_def)

lemma getTickInfo_single:
  assumes "options_tickCount opts = Some tc" and "truthy tc"
    and "Num 1 \<le> \<bar>mn\<bar> \<or> Num 1 \<le> \<bar>mx\<bar>"
    and "\<not> (mn < Num 0 \<and> mx \<le> Num 0)"
    and "makeTickInfo this tc mn mx mn mx False opts = Some (Inr ti)"
  shows "getTickInfo this mn mx chartDimension opts = Some (Inr ti)"
proof -
  have "getTickInfoCandidates this mn mx [tc] opts = Some (Inr [ti])"
    using assms(4,5) by (auto simp add: getTickInfoCandidates_def)
  with assms(1,2,3) show ?thesis
    by (simp add: getTickInfo_tickCount makeIntegerTypeInfo_large)
qed

text \<open>
  A run of the pipeline: data from 10 to 90 and five ticks asked for. The padded scale is
  \<open>[0, 94]\<close>, the raw step 23.5 is normalized to 30, and the scale becomes \<open>[0, 120]\<close>.
\<close>

lemma makeTickInfo_10_90:
  "makeTickInfo \<lparr>isVertical = True, chartType = CHART_TYPE_OTHER\<rparr> (Num 5) (Num 10) (Num 90)
     (Num 10) (Num 90) False
     \<lparr>options_min = None, options_max = None, options_tickCount = Some (Num 5)\<rparr> =
   Some (Inr \<lparr>scale = \<lparr>scale_min = Num 0, scale_max = Num 120\<rparr>, step = Num 30,
          tickCount = Num 5, labels = [Num 0, Num 30, Num 60, Num 90, Num 120]\<rparr>)"
  by code_simp

lemma getTickInfo_10_90:
  "getTickInfo \<lparr>isVertical = True, chartType = CHART_TYPE_OTHER\<rparr> (Num 10) (Num 90)
     \<lparr>width = Num 0, height = Num 0\<rparr>
     \<lparr>options_min = None, options_max = None, options_tickCount = Some (Num 5)\<rparr> =
   Some (Inr \<lparr>scale = \<lparr>scale_min = Num 0, scale_max = Num 120\<rparr>, step = Num 30,
          tickCount = Num 5, labels = [Num 0, Num 30, Num 60, Num 90, Num 120]\<rparr>)"
  by (rule getTickInfo_single [OF _ _ _ _ makeTickInfo_10_90])
     (simp_all add: less_eq_number_def)

section \<open>The number of labels is the tick count\<close>

lemma minimizeTickScale_labels:
  "minimizeTickScale userMin userMax ti opts = Some ti' \<Longrightarrow>
   tickCount ti' = Num (of_nat (length (labels ti')))"
  by (auto simp: minimizeTickScale_def Let_def split: option.splits)

lemma divideTickStep_labels:
  "divideTickStep ti n = Some ti' \<Longrightarrow>
   tickCount ti = Num (of_nat (length (labels ti))) \<Longrightarrow>
   tickCount ti' = Num (of_nat (length (labels ti')))"
  by (auto simp: divideTickStep_def Let_def split: option.splits if_splits)

lemma makeTickInfo_labels:
  "makeTickInfo this tc mn mx userMin userMax isMinus opts = Some (Inr ti) \<Longrightarrow>
   tickCount ti = Num (of_nat (length (labels ti)))"
  unfolding makeTickInfo_def Let_def
  by (auto split: option.splits dest!: minimizeTickScale_labels divideTickStep_labels)

lemma makeOriginalTypeTickInfo_labels:
  "tickCount ti = Num (of_nat (length (labels ti))) \<Longrightarrow>
   tickCount (makeOriginalTypeTickInfo ti dn) =
     Num (of_nat (length (labels (makeOriginalTypeTickInfo ti dn))))"
  by (simp add: makeOriginalTypeTickInfo_def)

text \<open>
  C4. Every tick info that \<open>_makeTickInfo\<close> produces for a candidate tick count, and the
  tick info that \<open>_getTickInfo\<close> finally returns, has as many labels as its \<open>tickCount\<close>
  field says.
\<close>

theorem labels_length_tickCount:
  "(makeTickInfo this tc a b userMin userMax isMinus opts = Some (Inr c) \<longrightarrow>
      tickCount c = Num (of_nat (length (labels c)))) \<and>
   (getTickInfo this mn mx chartDimension opts = Some (Inr ti) \<longrightarrow>
      tickCount ti = Num (of_nat (length (labels ti))))"
proof (intro conjI impI)
  assume "makeTickInfo this tc a b userMin userMax isMinus opts = Some (Inr c)"
  then show "tickCount c = Num (of_nat (length (labels c)))"
    by (rule makeTickInfo_labels)
next
  assume "getTickInfo this mn mx chartDimension opts = Some (Inr ti)"
  then obtain tcs cands c' where
    "getTickInfoCandidates this (info_min (makeIntegerTypeInfo mn mx opts))
             (info_max (makeIntegerTypeInfo mn mx opts)) tcs
             (info_options (makeIntegerTypeInfo mn mx opts)) = Some (Inr cands)"
    "c' \<in> set cands"
    and ti: "ti = makeOriginalTypeTickInfo c' (divideNum (makeIntegerTypeInfo mn mx opts))"
    using getTickInfo_Inr by blast
  then have "tickCount c' = Num (of_nat (length (labels c')))"
    using getTickInfoCandidates_mem makeTickInfo_labels by blast
  with ti show "tickCount ti = Num (of_nat (length (labels ti)))"
    by (simp add: makeOriginalTypeTickInfo_labels)
qed

theorem labels_length_tickCount_witness:
  "makeTickInfo \<lparr>isVertical = True, chartType = CHART_TYPE_OTHER\<rparr> (Num 5) (Num 10) (Num 90)
     (Num 10) (Num 90) False
     \<lparr>options_min = None, options_max = None, options_tickCount = Some (Num 5)\<rparr> =
   Some (Inr \<lparr>scale = \<lparr>scale_min = Num 0, scale_max = Num 120\<rparr>, step = Num 30,
          tickCount = Num 5, labels = [Num 0, Num 30, Num 60, Num 90, Num 120]\<rparr>) \<and>
   getTickInfo \<lparr>isVertical = True, chartType = CHART_TYPE_OTHER\<rparr> (Num 10) (Num 90)
     \<lparr>width = Num 0, height = Num 0\<rparr>
     \<lparr>options_min = None, options_max = None, options_tickCount = Some (Num 5)\<rparr> =
   Some (Inr \<lparr>scale = \<lparr>scale_min = Num 0, scale_max = Num 120\<rparr>, step = Num 30,
          tickCount = Num 5, labels = [Num 0, Num 30, Num 60, Num 90, Num 120]\<rparr>) \<and>
   tickCount \<lparr>scale = \<lparr>scale_min = Num 0, scale_max = Num 120\<rparr>, step = Num 30,
          tickCount = Num 5, labels = [Num 0, Num 30, Num 60, Num 90, Num 120]\<rparr> =
   Num (of_nat (length (labels \<lparr>scale = \<lparr>scale_min = Num 0, scale_max = Num 120\<rparr>,
          step = Num 30, tickCount = Num 5,
          labels = [Num 0, Num 30, Num 60, Num 90, Num 120]\<rparr>)))"
  using labels_length_tickCount
    [of "\<lparr>isVertical = True, chartType = CHART_TYPE_OTHER\<rparr>" "Num 5" "Num 10" "Num 90"
        "Num 10" "Num 90" False
        "\<lparr>options_min = None, options_max = None, options_tickCount = Some (Num 5)\<rparr>"
        "\<lparr>scale = \<lparr>scale_min = Num 0, scale_max = Num 120\<rparr>, step = Num 30,
          tickCount = Num 5, labels = [Num 0, Num 30, Num 60, Num 90, Num 120]\<rparr>"
        "Num 10" "Num 90" "\<lparr>width = Num 0, height = Num 0\<rparr>"
        "\<lparr>scale = \<lparr>scale_min = Num 0, scale_max = Num 120\<rparr>, step = Num 30,
          tickCount = Num 5, labels = [Num 0, Num 30, Num 60, Num 90, Num 120]\<rparr>"]
    makeTickInfo_10_90 getTickInfo_10_90
  by blast

section \<open>Selecting a candidate\<close>

lemma number_less_trans: "(a::number) < b \<Longrightarrow> b < c \<Longrightarrow> a < c"
  by (cases a; cases b; cases c) auto

lemma number_less_irrefl [simp]: "\<not> (a::number) < a"
  by (cases a) auto

lemma number_le_less_trans: "(a::number) \<le> b \<Longrightarrow> b < c \<Longrightarrow> a < c"
  by (auto simp: less_eq_number_def intro: number_less_trans)

lemma selectTickInfo_loop_inv:
  assumes "i < length pre" and "ti = pre ! i"
    and "v = getComparingValue (scale ti) (step ti) mn mx"
    and "\<forall>j<length pre. \<not> getComparingValue (scale (pre ! j)) (step (pre ! j)) mn mx < v"
    and "\<forall>j<i. \<not> getComparingValue (scale (pre ! j)) (step (pre ! j)) mn mx \<le> v"
  shows "\<exists>k<length (pre @ rest).
           fst (selectTickInfo_loop mn mx rest (ti, v)) = (pre @ rest) ! k \<and>
           (\<forall>j<length (pre @ rest).
              \<not> getComparingValue (scale ((pre @ rest) ! j)) (step ((pre @ rest) ! j)) mn mx
                  < getComparingValue (scale ((pre @ rest) ! k)) (step ((pre @ rest) ! k)) mn mx) \<and>
           (\<forall>j<k.
              \<not> getComparingValue (scale ((pre @ rest) ! j)) (step ((pre @ rest) ! j)) mn mx
                  \<le> getComparingValue (scale ((pre @ rest) ! k)) (step ((pre @ rest) ! k)) mn mx)"
  using assms
proof (induction rest arbitrary: pre i ti v)
  case Nil
  then show ?case by auto
next
  case (Cons info rest)
  let ?cv = "\<lambda>t. getComparingValue (scale t) (step t) mn mx"
  let ?pre = "pre @ [info]"
  show ?case
  proof (cases "?cv info < v")
    case True
    have a: "length pre < length ?pre" by simp
    have b: "info = ?pre ! length pre" by simp
    have c: "\<forall>j<length ?pre. \<not> ?cv (?pre ! j) < ?cv info"
    proof (intro allI impI)
      fix j assume "j < length ?pre"
      then consider "j < length pre" | "j = length pre" by fastforce
      then show "\<not> ?cv (?pre ! j) < ?cv info"
      proof cases
        case 1
        with Cons.prems(4) have "\<not> ?cv (pre ! j) < v" by simp
        with True number_less_trans have "\<not> ?cv (pre ! j) < ?cv info" by blast
        with 1 show ?thesis by (simp add: nth_append)
      next
        case 2
        then show ?thesis by simp
      qed
    qed
    have d: "\<forall>j<length pre. \<not> ?cv (?pre ! j) \<le> ?cv info"
    proof (intro allI impI)
      fix j assume j: "j < length pre"
      with Cons.prems(4) have "\<not> ?cv (pre ! j) < v" by simp
      with True number_le_less_trans have "\<not> ?cv (pre ! j) \<le> ?cv info" by blast
      with j show "\<not> ?cv (?pre ! j) \<le> ?cv info" by (simp add: nth_append)
    qed
    from Cons.IH [OF a b refl c d] True show ?thesis by (simp add: Let_def)
  next
    case False
    have a: "i < length ?pre" using Cons.prems(1) by simp
    have b: "ti = ?pre ! i" using Cons.prems(1,2) by (simp add: nth_append)
    have c: "\<forall>j<length ?pre. \<not> ?cv (?pre ! j) < v"
    proof (intro allI impI)
      fix j assume "j < length ?pre"
      then consider "j < length pre" | "j = length pre" by fastforce
      then show "\<not> ?cv (?pre ! j) < v"
      proof cases
        case 1
        with Cons.prems(4) show ?thesis by (simp add: nth_append)
      next
        case 2
        with False show ?thesis by simp
      qed
    qed
    have d: "\<forall>j<i. \<not> ?cv (?pre ! j) \<le> v"
      using Cons.prems(1,5) by (simp add: nth_append)
    from Cons.IH [OF a b Cons.prems(3) c d] False show ?thesis by (simp add: Let_def)
  qed
qed

text \<open>
  The comparing value of a candidate is
  \<open>(|scale.max - max| + |min - scale.min|) * 10^decimalPlaces(step)\<close>, and of a non-empty
  candidate list \<open>_selectTickInfo\<close> returns a candidate below which no candidate compares
  strictly, the earliest such one (no earlier candidate compares below or equal to it).
\<close>

lemma selectTickInfo_minimal:
  assumes "candidates \<noteq> []"
  shows "getComparingValue scl stp mn mx =
           (\<bar>scale_max scl - mx\<bar> + \<bar>mn - scale_min scl\<bar>) *
           Num (10 ^ ne_util_lengthAfterPoint stp) \<and>
         (\<exists>k<length candidates.
           selectTickInfo mn mx candidates = Inr (candidates ! k) \<and>
           (\<forall>j<length candidates.
              \<not> getComparingValue (scale (candidates ! j)) (step (candidates ! j)) mn mx
                  < getComparingValue (scale (candidates ! k)) (step (candidates ! k)) mn mx) \<and>
           (\<forall>j<k.
              \<not> getComparingValue (scale (candidates ! j)) (step (candidates ! j)) mn mx
                  \<le> getComparingValue (scale (candidates ! k)) (step (candidates ! k)) mn mx))"
proof -
  from assms obtain c rest where cs: "candidates = c # rest" by (cases candidates) auto
  have "\<exists>k<length ([c] @ rest).
           fst (selectTickInfo_loop mn mx rest (c, getComparingValue (scale c) (step c) mn mx))
             = ([c] @ rest) ! k \<and>
           (\<forall>j<length ([c] @ rest).
              \<not> getComparingValue (scale (([c] @ rest) ! j)) (step (([c] @ rest) ! j)) mn mx
                  < getComparingValue (scale (([c] @ rest) ! k)) (step (([c] @ rest) ! k)) mn mx) \<and>
           (\<forall>j<k.
              \<not> getComparingValue (scale (([c] @ rest) ! j)) (step (([c] @ rest) ! j)) mn mx
                  \<le> getComparingValue (scale (([c] @ rest) ! k)) (step (([c] @ rest) ! k)) mn mx)"
    by (rule selectTickInfo_loop_inv [where i = 0]) simp_all
  with cs show ?thesis by (simp add: getComparingValue_def)
qed



text \<open>
  Two numbers other than \<open>NaN\<close> always compare, so when no comparing value is \<open>NaN\<close> the
  selected candidate has the least comparing value.
\<close>

lemma number_not_less: "x \<noteq> NaN \<Longrightarrow> y \<noteq> NaN \<Longrightarrow> \<not> x < y \<Longrightarrow> y \<le> x"
  by (cases x; cases y) (auto simp: less_eq_number_def)

lemma selectTickInfo_least:
  assumes "candidates \<noteq> []"
    and "\<forall>c\<in>set candidates. getComparingValue (scale c) (step c) mn mx \<noteq> NaN"
  shows "\<exists>ti\<in>set candidates. selectTickInfo mn mx candidates = Inr ti \<and>
           (\<forall>c\<in>set candidates. getComparingValue (scale ti) (step ti) mn mx
                                   \<le> getComparingValue (scale c) (step c) mn mx)"
proof -
  from selectTickInfo_minimal [OF assms(1), of "scale (hd candidates)" "step (hd candidates)" mn mx]
  obtain k where k: "k < length candidates"
    "selectTickInfo mn mx candidates = Inr (candidates ! k)"
    "\<forall>j<length candidates.
       \<not> getComparingValue (scale (candidates ! j)) (step (candidates ! j)) mn mx
           < getComparingValue (scale (candidates ! k)) (step (candidates ! k)) mn mx"
    by blast
  have "getComparingValue (scale (candidates ! k)) (step (candidates ! k)) mn mx
          \<le> getComparingValue (scale c) (step c) mn mx" if "c \<in> set candidates" for c
  proof -
    from that obtain j where j: "j < length candidates" "c = candidates ! j"
      by (auto simp: in_set_conv_nth)
    from k(1) assms(2) have "getComparingValue (scale (candidates ! k)) (step (candidates ! k)) mn mx
        \<noteq> NaN"
      by simp
    moreover from that assms(2) have "getComparingValue (scale c) (step c) mn mx \<noteq> NaN"
      by simp
    moreover from k(3) j have "\<not> getComparingValue (scale c) (step c) mn mx
           < getComparingValue (scale (candidates ! k)) (step (candidates ! k)) mn mx"
      by simp
    ultimately show ?thesis by (intro number_not_less)
  qed
  with k(1,2) show ?thesis by (intro bexI [of _ "candidates ! k"]) simp_all
qed

text \<open>
  The candidates for the data from 5 to 50 on a vertical axis of height 180, where the
  candidate tick counts are 1 and 2. For the tick count 1 the raw step is \<open>52.25 / 0\<close>,
  and the candidate has the scale maximum \<open>NaN\<close>.
\<close>

lemma getTickInfoCandidates_5_50:
  "getTickInfoCandidates \<lparr>isVertical = True, chartType = CHART_TYPE_OTHER\<rparr> (Num 5) (Num 50)
     [Num 1, Num 2] \<lparr>options_min = None, options_max = None, options_tickCount = None\<rparr> =
   Some (Inr [\<lparr>scale = \<lparr>scale_min = Num 0, scale_max = NaN\<rparr>, step = PosInfinity,
                tickCount = Num 0, labels = []\<rparr>,
              \<lparr>scale = \<lparr>scale_min = Num 0, scale_max = Num 60\<rparr>, step = Num 60,
                tickCount = Num 2, labels = [Num 0, Num 60]\<rparr>])"
  by code_simp

text \<open>
  C8 fails on the code. For the data from 5 to 50 on a vertical axis of height 180 the
  candidate list holds the candidate of the tick count 1, whose comparing value is \<open>NaN\<close>,
  and then the candidate of the tick count 2 with the scale from 0 to 60, whose
  comparing value is 15. \<open>_selectTickInfo\<close> returns the first one: its comparing value is
  not the minimal one, as \<open>NaN\<close> is not below or equal to 15, but no comparing value
  compares strictly below \<open>NaN\<close>, which is all that the loop tests.
\<close>

theorem selectTickInfo_NaN_candidate:
  "getCandidateTickCounts \<lparr>isVertical = True, chartType = CHART_TYPE_OTHER\<rparr>
     \<lparr>width = Num 1000, height = Num 180\<rparr> = Some [Num 1, Num 2] \<and>
   getTickInfoCandidates \<lparr>isVertical = True, chartType = CHART_TYPE_OTHER\<rparr> (Num 5) (Num 50)
     [Num 1, Num 2] \<lparr>options_min = None, options_max = None, options_tickCount = None\<rparr> =
   Some (Inr [\<lparr>scale = \<lparr>scale_min = Num 0, scale_max = NaN\<rparr>, step = PosInfinity,
                tickCount = Num 0, labels = []\<rparr>,
              \<lparr>scale = \<lparr>scale_min = Num 0, scale_max = Num 60\<rparr>, step = Num 60,
                tickCount = Num 2, labels = [Num 0, Num 60]\<rparr>]) \<and>
   selectTickInfo (Num 5) (Num 50)
     [\<lparr>scale = \<lparr>scale_min = Num 0, scale_max = NaN\<rparr>, step = PosInfinity,
        tickCount = Num 0, labels = []\<rparr>,
      \<lparr>scale = \<lparr>scale_min = Num 0, scale_max = Num 60\<rparr>, step = Num 60,
        tickCount = Num 2, labels = [Num 0, Num 60]\<rparr>] =
   Inr \<lparr>scale = \<lparr>scale_min = Num 0, scale_max = NaN\<rparr>, step = PosInfinity,
        tickCount = Num 0, labels = []\<rparr> \<and>
   getComparingValue \<lparr>scale_min = Num 0, scale_max = NaN\<rparr> PosInfinity (Num 5) (Num 50) = NaN \<and>
   getComparingValue \<lparr>scale_min = Num 0, scale_max = Num 60\<rparr> (Num 60) (Num 5) (Num 50) =
     Num 15 \<and>
   (NaN \<le> Num 15) = False"
proof (intro conjI)
  show "getCandidateTickCounts \<lparr>isVertical = True, chartType = CHART_TYPE_OTHER\<rparr>
     \<lparr>width = Num 1000, height = Num 180\<rparr> = Some [Num 1, Num 2]"
    by code_simp
  show "getTickInfoCandidates \<lparr>isVertical = True, chartType = CHART_TYPE_OTHER\<rparr> (Num 5) (Num 50)
     [Num 1, Num 2] \<lparr>options_min = None, options_max = None, options_tickCount = None\<rparr> =
   Some (Inr [\<lparr>scale = \<lparr>scale_min = Num 0, scale_max = NaN\<rparr>, step = PosInfinity,
                tickCount = Num 0, labels = []\<rparr>,
              \<lparr>scale = \<lparr>scale_min = Num 0, scale_max = Num 60\<rparr>, step = Num 60,
                tickCount = Num 2, labels = [Num 0, Num 60]\<rparr>])"
    by (rule getTickInfoCandidates_5_50)
  show "selectTickInfo (Num 5) (Num 50)
     [\<lparr>scale = \<lparr>scale_min = Num 0, scale_max = NaN\<rparr>, step = PosInfinity,
        tickCount = Num 0, labels = []\<rparr>,
      \<lparr>scale = \<lparr>scale_min = Num 0, scale_max = Num 60\<rparr>, step = Num 60,
        tickCount = Num 2, labels = [Num 0, Num 60]\<rparr>] =
   Inr \<lparr>scale = \<lparr>scale_min = Num 0, scale_max = NaN\<rparr>, step = PosInfinity,
        tickCount = Num 0, labels = []\<rparr>"
    by code_simp
  show "getComparingValue \<lparr>scale_min = Num 0, scale_max = NaN\<rparr> PosInfinity (Num 5) (Num 50) = NaN"
    by code_simp
  show "getComparingValue \<lparr>scale_min = Num 0, scale_max = Num 60\<rparr> (Num 60) (Num 5) (Num 50) =
     Num 15"
    by code_simp
  show "(NaN \<le> Num 15) = False"
    by (simp add: less_eq_number_def)
qed

section \<open>Step normalization\<close>

lemma findMultipleNum_pos: "\<exists>k. ne_util_findMultipleNum args = Num (10 ^ k)"
  by (auto simp: ne_util_findMultipleNum_def)

lemma ne_util_addition_Num [simp]: "ne_util_addition (Num a) (Num b) = Num (a + b)"
  by (simp add: ne_util_addition_def ne_util_findMultipleNum_def distrib_right [symmetric])

lemma ne_util_subtraction_Num [simp]: "ne_util_subtraction (Num a) (Num b) = Num (a - b)"
  by (simp add: ne_util_subtraction_def ne_util_findMultipleNum_def minus_number_def
      left_diff_distrib [symmetric])

lemma ne_util_mod_Num [simp]: "ne_util_mod (Num a) (Num b) = Num a mod Num b"
  by (simp add: ne_util_mod_def ne_util_findMultipleNum_def field_simps)

lemma standard_loop_Num:
  "standard_loop (Num r) [Num 1, Num 2, Num 5, Num 10] (Num 0) =
     (if r < 1 then Num 0 else if r < 2 then Num 2 else if r < 5 then Num 5 else Num 10)"
  by (simp add: strict_eq_def)


lemma number_mod_pos:
  "0 \<le> a \<Longrightarrow> 0 < b \<Longrightarrow> Num a mod Num b = Num (a - b * of_int \<lfloor>a / b\<rfloor>)"
  by simp

lemma normalizeStep_zero: "normalizeStep (Num 0) = Some (Num 0)"
  by (subst normalizeStep.simps) (simp add: strict_eq_def)

lemma normalizeStep_below_one:
  assumes "r < 1" and "r \<noteq> 0"
  shows "normalizeStep (Num r) =
           Option.bind (normalizeStep (Num (r * 10))) (\<lambda>n. Some (n * Num (1 / 10)))"
  using assms
  by (subst normalizeStep.simps) (simp add: strict_eq_def standard_loop_Num del: standard_loop.simps)

lemma normalizeStep_1_2:
  assumes "1 \<le> r" and "r < 2"
  shows "normalizeStep (Num r) = Some (Num 2)"
proof -
  have "\<lfloor>r / 2\<rfloor> = 0" using assms by (simp add: floor_eq_iff)
  with assms show ?thesis
    by (subst normalizeStep.simps)
       (simp add: strict_eq_def standard_loop_Num minus_number_def del: standard_loop.simps)
qed

lemma normalizeStep_2_5:
  assumes "2 \<le> r" and "r < 5"
  shows "normalizeStep (Num r) = Some (Num 5)"
proof -
  have "\<lfloor>r / 5\<rfloor> = 0" using assms by (simp add: floor_eq_iff)
  with assms show ?thesis
    by (subst normalizeStep.simps)
       (simp add: strict_eq_def standard_loop_Num minus_number_def del: standard_loop.simps)
qed

lemma normalizeStep_5_10:
  assumes "5 \<le> r" and "r < 10"
  shows "normalizeStep (Num r) = Some (Num 10)"
proof -
  have "\<lfloor>r / 10\<rfloor> = 0" using assms by (simp add: floor_eq_iff)
  with assms show ?thesis
    by (subst normalizeStep.simps)
       (simp add: strict_eq_def standard_loop_Num minus_number_def del: standard_loop.simps)
qed

lemma normalizeStep_ge_10:
  assumes "10 \<le> r"
  shows "normalizeStep (Num r) = Some (Num (10 * of_int \<lceil>r / 10\<rceil>))"
proof -
  have eq: "normalizeStep (Num r) =
      Some (Num (r + (if 0 < r - 10 * of_int \<lfloor>r / 10\<rfloor>
                      then 10 - (r - 10 * of_int \<lfloor>r / 10\<rfloor>) else 0)))"
    using assms
    by (subst normalizeStep.simps)
       (simp add: strict_eq_def standard_loop_Num minus_number_def del: standard_loop.simps)
  show ?thesis
  proof (cases "r / 10 = of_int \<lfloor>r / 10\<rfloor>")
    case True
    then have "\<lceil>r / 10\<rceil> = \<lfloor>r / 10\<rfloor>" by (metis ceiling_of_int)
    moreover from True have "r = 10 * of_int \<lfloor>r / 10\<rfloor>" by simp
    ultimately show ?thesis using eq by simp
  next
    case False
    then have c: "\<lceil>r / 10\<rceil> = \<lfloor>r / 10\<rfloor> + 1"
      by (metis ceiling_altdef)
    have "of_int \<lfloor>r / 10\<rfloor> \<le> r / 10" by (rule of_int_floor_le)
    with False have "of_int \<lfloor>r / 10\<rfloor> < r / 10" by simp
    then have "0 < r - 10 * of_int \<lfloor>r / 10\<rfloor>" by simp
    with eq c show ?thesis by simp
  qed
qed


lemma normalizeStep_PosInfinity: "normalizeStep PosInfinity = Some PosInfinity"
  by (subst normalizeStep.simps)
     (simp add: strict_eq_def ne_util_mod_def ne_util_addition_def ne_util_findMultipleNum_def)

lemma normalizeStep_ge_one:
  assumes "1 \<le> r"
  shows "\<exists>s. normalizeStep (Num r) = Some (Num s) \<and> r \<le> s"
proof -
  consider "r < 2" | "2 \<le> r" "r < 5" | "5 \<le> r" "r < 10" | "10 \<le> r" by linarith
  then show ?thesis
  proof cases
    case 1
    with assms show ?thesis by (simp add: normalizeStep_1_2)
  next
    case 2
    then show ?thesis by (simp add: normalizeStep_2_5)
  next
    case 3
    then show ?thesis by (simp add: normalizeStep_5_10)
  next
    case 4
    have "r / 10 \<le> of_int \<lceil>r / 10\<rceil>" by (rule le_of_int_ceiling)
    then have "r \<le> 10 * of_int \<lceil>r / 10\<rceil>" by linarith
    with 4 show ?thesis by (simp add: normalizeStep_ge_10)
  qed
qed

lemma normalizeStep_pos_aux:
  "0 < r \<Longrightarrow> 1 \<le> r * 10 ^ k \<Longrightarrow> \<exists>s. normalizeStep (Num r) = Some (Num s) \<and> r \<le> s"
proof (induction k arbitrary: r)
  case 0
  then show ?case by (simp add: normalizeStep_ge_one)
next
  case (Suc k)
  show ?case
  proof (cases "1 \<le> r")
    case True
    then show ?thesis by (rule normalizeStep_ge_one)
  next
    case False
    from Suc.prems have "0 < r * 10" and "1 \<le> (r * 10) * 10 ^ k"
      by (simp_all add: mult.assoc)
    from Suc.IH [OF this] obtain s where
      s: "normalizeStep (Num (r * 10)) = Some (Num s)" "r * 10 \<le> s"
      by blast
    from False Suc.prems(1) have "normalizeStep (Num r) =
        Option.bind (normalizeStep (Num (r * 10))) (\<lambda>n. Some (n * Num (1 / 10)))"
      by (intro normalizeStep_below_one) simp_all
    with s have "normalizeStep (Num r) = Some (Num (s / 10))" and "r \<le> s / 10"
      by simp_all
    then show ?thesis by blast
  qed
qed

lemma power_of_ten_reaches:
  fixes r :: rat
  assumes "0 < r"
  shows "\<exists>k. 1 \<le> r * 10 ^ k"
proof -
  obtain n where n: "1 / r < of_nat n"
    using reals_Archimedean2 by blast
  have "(of_nat n :: rat) < 2 ^ n" by (rule of_nat_less_two_power)
  also have "(2 :: rat) ^ n \<le> 10 ^ n" by (rule power_mono) simp_all
  finally have "(of_nat n :: rat) < 10 ^ n" .
  with n have "1 / r < 10 ^ n" by (rule less_trans)
  with assms have "1 < r * 10 ^ n" by (simp add: field_simps)
  then show ?thesis by (intro exI [of _ n]) simp
qed

lemma normalizeStep_pos:
  "0 < r \<Longrightarrow> \<exists>s. normalizeStep (Num r) = Some (Num s) \<and> r \<le> s"
  using power_of_ten_reaches normalizeStep_pos_aux by blast

text \<open>
  C10. Step normalization never decreases a step: for every step that is at least 0 it
  returns a step that is at least the given one, so the span of \<open>tickCount - 1\<close>
  normalized steps is at least the span of as many raw steps.
\<close>

theorem normalizeStep_increases:
  assumes "Num 0 \<le> stp"
  shows "\<exists>n. normalizeStep stp = Some n \<and> stp \<le> n \<and>
             (\<forall>t. 1 < t \<longrightarrow> stp * Num (t - 1) \<le> n * Num (t - 1))"
proof (cases stp)
  case (Num r)
  with assms have "r = 0 \<or> 0 < r" by (auto simp: less_eq_number_def)
  then show ?thesis
  proof
    assume "r = 0"
    with Num show ?thesis by (simp add: normalizeStep_zero less_eq_number_def)
  next
    assume "0 < r"
    then obtain s where "normalizeStep (Num r) = Some (Num s)" and "r \<le> s"
      using normalizeStep_pos by blast
    with Num show ?thesis
      by (auto simp: less_eq_number_def mult_right_mono)
  qed
next
  case NaN
  with assms show ?thesis by (simp add: less_eq_number_def)
next
  case PosInfinity
  then show ?thesis by (simp add: normalizeStep_PosInfinity less_eq_number_def)
next
  case NegInfinity
  with assms show ?thesis by (simp add: less_eq_number_def)
qed

lemma normalizeStep_47_2: "normalizeStep (Num (47 / 2)) = Some (Num 30)"
  by code_simp

theorem normalizeStep_increases_witness:
  "Num 0 \<le> Num (47 / 2) \<and> normalizeStep (Num (47 / 2)) = Some (Num 30) \<and>
   Num (47 / 2) \<le> Num 30 \<and> (1::rat) < 5 \<and>
   Num (47 / 2) * Num (5 - 1) \<le> Num 30 * Num (5 - 1)"
proof -
  have h: "Num 0 \<le> Num (47 / 2)" by (simp add: less_eq_number_def)
  from normalizeStep_increases [OF h] obtain n where
    n: "normalizeStep (Num (47 / 2)) = Some n" "Num (47 / 2) \<le> n"
       "\<forall>t. 1 < t \<longrightarrow> Num (47 / 2) * Num (t - 1) \<le> n * Num (t - 1)"
    by blast
  from n(1) have "n = Num 30" by (simp add: normalizeStep_47_2)
  with n(2,3) have "Num (47 / 2) \<le> Num 30" and
      "1 < (5::rat) \<longrightarrow> Num (47 / 2) * Num (5 - 1) \<le> Num 30 * Num (5 - 1)"
    by blast+
  with h show ?thesis by (simp add: normalizeStep_47_2)
qed


lemma normalizeStep_idem_ge_5:
  assumes "5 \<le> r"
  shows "Option.bind (normalizeStep (Num r)) normalizeStep = normalizeStep (Num r)"
proof (cases "r < 10")
  case True
  with assms show ?thesis
    by (simp add: normalizeStep_5_10 normalizeStep_ge_10)
next
  case False
  then have r: "10 \<le> r" by simp
  then have "1 \<le> r / 10" by simp
  then have "1 \<le> \<lceil>r / 10\<rceil>" by linarith
  then have "(10::rat) \<le> 10 * of_int \<lceil>r / 10\<rceil>" by simp
  then have "normalizeStep (Num (10 * of_int \<lceil>r / 10\<rceil>)) =
      Some (Num (10 * of_int \<lceil>r / 10\<rceil>))"
    by (simp add: normalizeStep_ge_10)
  with r show ?thesis by (simp add: normalizeStep_ge_10)
qed

text \<open>The normalized integer steps.\<close>

lemma ceiling_tenth: "\<lceil>(of_int i :: rat) / 10\<rceil> = (i + 9) div 10"
proof -
  have "\<lceil>(of_int i :: rat) / of_int 10\<rceil> = - (- i div 10)"
    by (rule ceiling_divide_eq_div)
  then show ?thesis by simp
qed

lemma normalizeStep_of_int:
  assumes "0 \<le> i"
  shows "normalizeStep (Num (of_int i)) =
           Some (Num (of_int (if i = 0 then 0 else if i < 2 then 2 else if i < 5 then 5
                              else if i < 10 then 10 else 10 * ((i + 9) div 10))))"
proof -
  consider "i = 0" | "1 \<le> i" "i < 2" | "2 \<le> i" "i < 5" | "5 \<le> i" "i < 10" | "10 \<le> i"
    using assms by linarith
  then show ?thesis
  proof cases
    case 1
    then show ?thesis by (simp add: normalizeStep_zero)
  next
    case 2
    then have "1 \<le> (of_int i :: rat)" "(of_int i :: rat) < 2" by simp_all
    from normalizeStep_1_2 [OF this] 2 show ?thesis by simp
  next
    case 3
    then have "2 \<le> (of_int i :: rat)" "(of_int i :: rat) < 5" by simp_all
    from normalizeStep_2_5 [OF this] 3 show ?thesis by simp
  next
    case 4
    then have "5 \<le> (of_int i :: rat)" "(of_int i :: rat) < 10" by simp_all
    from normalizeStep_5_10 [OF this] 4 show ?thesis by simp
  next
    case 5
    then have "10 \<le> (of_int i :: rat)" by simp
    from normalizeStep_ge_10 [OF this] 5 show ?thesis by (simp add: ceiling_tenth)
  qed
qed


text \<open>
  C5 as stated fails: the ladder value 1 is normalized to 2, and 2 is normalized to 5.
\<close>

theorem normalizeStep_idempotent_counterexample:
  "normalizeStep (Num 1) = Some (Num 2) \<and>
   Option.bind (normalizeStep (Num 1)) normalizeStep = Some (Num 5)"
  by (simp add: normalizeStep_1_2 normalizeStep_2_5)

text \<open>
  C5, amended. For the integer steps \<open>x\<close> from 0 to \<open>10^15\<close>, on which the arithmetic of
  the code is exact, \<open>normalizeStep(x)\<close> is 0 for 0, 2 for 1, 5 for 2 to 4, 10 for 5 to 9
  and, from 10 on, the least multiple of 10 that is not below \<open>x\<close>. Hence normalizing
  twice is the same as normalizing once for 0 and for every such integer from 5 on.
\<close>

theorem normalizeStep_integer_steps:
  assumes "0 \<le> i" and "i \<le> 10 ^ 15"
  shows "normalizeStep (Num (of_int i)) =
           Some (Num (of_int (if i = 0 then 0 else if i < 2 then 2 else if i < 5 then 5
                              else if i < 10 then 10 else 10 * ((i + 9) div 10)))) \<and>
         (i = 0 \<or> 5 \<le> i \<longrightarrow>
            Option.bind (normalizeStep (Num (of_int i))) normalizeStep =
              normalizeStep (Num (of_int i)))"
proof
  from assms(1) show "normalizeStep (Num (of_int i)) =
           Some (Num (of_int (if i = 0 then 0 else if i < 2 then 2 else if i < 5 then 5
                              else if i < 10 then 10 else 10 * ((i + 9) div 10))))"
    by (rule normalizeStep_of_int)
  show "i = 0 \<or> 5 \<le> i \<longrightarrow>
            Option.bind (normalizeStep (Num (of_int i))) normalizeStep =
              normalizeStep (Num (of_int i))"
  proof
    assume "i = 0 \<or> 5 \<le> i"
    then show "Option.bind (normalizeStep (Num (of_int i))) normalizeStep =
              normalizeStep (Num (of_int i))"
    proof
      assume "i = 0"
      then show ?thesis by (simp add: normalizeStep_zero)
    next
      assume "5 \<le> i"
      then have "5 \<le> (of_int i :: rat)" by simp
      then show ?thesis by (rule normalizeStep_idem_ge_5)
    qed
  qed
qed

theorem normalizeStep_integer_steps_witness:
  "(0::int) \<le> 1005 \<and> (1005::int) \<le> 10 ^ 15 \<and>
   normalizeStep (Num 1005) = Some (Num 1010) \<and>
   Option.bind (normalizeStep (Num 1005)) normalizeStep = normalizeStep (Num 1005)"
proof -
  have h: "(0::int) \<le> 1005" "(1005::int) \<le> 10 ^ 15" by simp_all
  note t = normalizeStep_integer_steps [OF h]
  from t have a: "normalizeStep (Num 1005) = Some (Num 1010)" by simp
  from t have "(1005::int) = 0 \<or> 5 \<le> (1005::int) \<longrightarrow>
      Option.bind (normalizeStep (Num (of_int 1005))) normalizeStep =
        normalizeStep (Num (of_int 1005))"
    by (rule conjunct2)
  then have b: "Option.bind (normalizeStep (Num 1005)) normalizeStep = normalizeStep (Num 1005)"
    by simp
  from h a b show ?thesis by blast
qed

section \<open>Candidate tick counts\<close>

lemma range_loop_ints:
  "range_loop (Num (of_int i)) (Num 1) (Num (of_int j)) (Num 1) arr =
     Some (arr @ map (\<lambda>k. Num (of_int k)) [i..j - 1])"
proof (induction "nat (j - i)" arbitrary: i arr)
  case 0
  then have "j \<le> i" by simp
  then show ?case by (subst range_loop.simps) simp
next
  case (Suc n)
  then have lt: "i < j" and n: "n = nat (j - (i + 1))" by linarith+
  from lt have "[i..j - 1] = i # [i + 1..j - 1]" by (simp add: upto_rec1)
  with Suc.hyps(1) [OF n, of "arr @ [Num (of_int i)]"] lt show ?case
    by (subst range_loop.simps) simp
qed

lemma getCandidateTickCounts_height_40:
  "getCandidateTickCounts \<lparr>isVertical = True, chartType = CHART_TYPE_OTHER\<rparr>
     \<lparr>width = Num 1000, height = Num 40\<rparr> = Some []"
  by code_simp

text \<open>
  A quotient that is printed in plain decimal notation: \<open>parseInt\<close> truncates it.
\<close>

lemma parseInt_trunc:
  "1 / 10 ^ 6 \<le> \<bar>a\<bar> \<Longrightarrow> \<bar>a\<bar> < 10 ^ 21 \<Longrightarrow> 0 \<le> a \<Longrightarrow> parseInt (Num a) = Num (of_int \<lfloor>a\<rfloor>)"
  by simp

lemma parseInt_plain:
  assumes "b = 0 \<or> 6 / 10 ^ 5 \<le> b" and "b < 4 * 10 ^ 22" and "d = 40 \<or> d = 60"
  shows "parseInt (Num (b / d)) = Num (of_int \<lfloor>b / d\<rfloor>)"
proof (cases "b = 0")
  case True
  then show ?thesis by simp
next
  case False
  with assms(1) have b: "6 / 10 ^ 5 \<le> b" by simp
  then have pos: "0 < b" by (rule less_le_trans [rotated]) simp
  from assms(3) have d: "0 < d" by auto
  have "1 / 10 ^ 6 \<le> b / d"
  proof -
    from assms(3) have "d / 10 ^ 6 \<le> 6 / 10 ^ 5" by auto
    with b have "d / 10 ^ 6 \<le> b" by simp
    with d show ?thesis by (simp add: field_simps)
  qed
  moreover have "b / d < 10 ^ 21"
  proof -
    from assms(3) have "(4 * 10 ^ 22 :: rat) \<le> 10 ^ 21 * d" by auto
    with assms(2) have "b < 10 ^ 21 * d" by simp
    with d show ?thesis by (simp add: field_simps)
  qed
  moreover from pos d have nn: "0 \<le> b / d" by simp
  ultimately have "1 / 10 ^ 6 \<le> \<bar>b / d\<bar>" and "\<bar>b / d\<bar> < 10 ^ 21"
    by (simp_all only: abs_of_nonneg [OF nn])
  then show ?thesis using nn by (rule parseInt_trunc)
qed

lemma getCandidateTickCounts_Num:
  assumes "getBaseSize this chartDimension = Num b"
    and "b = 0 \<or> 1 / 10 ^ 4 \<le> b" and "b \<le> 10 ^ 9"
  shows "getCandidateTickCounts this chartDimension =
           Some (map (\<lambda>k. Num (of_int k)) [\<lfloor>b / 60\<rfloor>..\<lfloor>b / 40\<rfloor>]) \<and>
         [\<lfloor>b / 60\<rfloor>..\<lfloor>b / 40\<rfloor>] \<noteq> []"
proof
  from assms(2) have lo: "b = 0 \<or> 6 / 10 ^ 5 \<le> b" by auto
  from assms(3) have hi: "b < 4 * 10 ^ 22" by simp
  have "ne_util_range (parseInt (Num b / MAX_PIXEL_STEP_SIZE))
      (parseInt (Num b / MIN_PIXEL_STEP_SIZE) + Num 1) None =
      range_loop (Num (of_int \<lfloor>b / 60\<rfloor>)) (Num 1) (Num (of_int (\<lfloor>b / 40\<rfloor> + 1))) (Num 1) []"
    using parseInt_plain [OF lo hi, of 60] parseInt_plain [OF lo hi, of 40]
    by (simp add: ne_util_range_def MAX_PIXEL_STEP_SIZE_def MIN_PIXEL_STEP_SIZE_def Let_def
          del: parseInt.simps)
  with assms(1) show "getCandidateTickCounts this chartDimension =
      Some (map (\<lambda>k. Num (of_int k)) [\<lfloor>b / 60\<rfloor>..\<lfloor>b / 40\<rfloor>])"
    unfolding getCandidateTickCounts_def Let_def
    by (simp only: range_loop_ints) simp
  from assms(2) have "0 \<le> b" by auto
  then have "b / 60 \<le> b / 40" by (simp add: field_simps)
  then have "\<lfloor>b / 60\<rfloor> \<le> \<lfloor>b / 40\<rfloor>" by (rule floor_mono)
  then show "[\<lfloor>b / 60\<rfloor>..\<lfloor>b / 40\<rfloor>] \<noteq> []" by simp
qed

text \<open>
  A horizontal axis of width 180.00001 has the base size \<open>0.00001\<close>, whose quotients by
  60 and 40 are printed as \<open>1.6666666666666667e-7\<close> and \<open>2.5e-7\<close>: the tick counts
  start at 1 and end before 3.
\<close>

lemma getCandidateTickCounts_tiny:
  "getCandidateTickCounts \<lparr>isVertical = False, chartType = CHART_TYPE_OTHER\<rparr>
     \<lparr>width = Num (18000001 / 100000), height = Num 500\<rparr> = Some [Num 1, Num 2]"
  by code_simp

text \<open>
  C3 as stated fails: a vertical axis of height 40 has the base size -40, for which the
  range of tick counts starts and ends at 0 and is empty.
\<close>

theorem getCandidateTickCounts_empty_counterexample:
  "getCandidateTickCounts \<lparr>isVertical = True, chartType = CHART_TYPE_OTHER\<rparr>
     \<lparr>width = Num 1000, height = Num 40\<rparr> = Some []"
  by (rule getCandidateTickCounts_height_40)

lemma getCandidateTickCounts_below_40:
  assumes "getBaseSize this chartDimension = Num b"
    and "b = 0 \<or> 1 / 10 ^ 4 \<le> b" and "b < 40"
  shows "getCandidateTickCounts this chartDimension = Some [Num 0]"
proof -
  from assms(2) have nn: "0 \<le> b" by auto
  with assms(3) have "\<lfloor>b / 60\<rfloor> = 0" and "\<lfloor>b / 40\<rfloor> = 0" by (simp_all add: floor_eq_iff)
  moreover from assms(3) have "b \<le> 10 ^ 9" by simp
  ultimately show ?thesis
    using getCandidateTickCounts_Num [OF assms(1,2)] by simp
qed

text \<open>
  C3, amended. When the usable pixel length \<open>L\<close> (the base size) is 0, or is at least
  \<open>0.0001\<close> and at most \<open>10^9\<close>, so that \<open>L / 60\<close> and \<open>L / 40\<close> are printed in plain
  decimal notation and the tick counts fit into an array, the candidate tick counts are
  the integers from \<open>floor(L / 60)\<close> to \<open>floor(L / 40)\<close> in ascending order, and there is
  at least one. Nothing falls back to the tick count 1: for such a length below 40 the
  only candidate is the tick count 0.
\<close>

theorem getCandidateTickCounts_plain:
  assumes "getBaseSize this chartDimension = Num b"
    and "b = 0 \<or> 1 / 10 ^ 4 \<le> b" and "b \<le> 10 ^ 9"
  shows "getCandidateTickCounts this chartDimension =
           Some (map (\<lambda>k. Num (of_int k)) [\<lfloor>b / 60\<rfloor>..\<lfloor>b / 40\<rfloor>]) \<and>
         [\<lfloor>b / 60\<rfloor>..\<lfloor>b / 40\<rfloor>] \<noteq> [] \<and>
         (b < 40 \<longrightarrow> getCandidateTickCounts this chartDimension = Some [Num 0])"
proof (intro conjI impI)
  from getCandidateTickCounts_Num [OF assms]
  show "getCandidateTickCounts this chartDimension =
           Some (map (\<lambda>k. Num (of_int k)) [\<lfloor>b / 60\<rfloor>..\<lfloor>b / 40\<rfloor>])"
    and "[\<lfloor>b / 60\<rfloor>..\<lfloor>b / 40\<rfloor>] \<noteq> []"
    by simp_all
next
  assume "b < 40"
  with assms(1,2) show "getCandidateTickCounts this chartDimension = Some [Num 0]"
    by (rule getCandidateTickCounts_below_40)
qed

theorem getCandidateTickCounts_plain_witness:
  "getBaseSize \<lparr>isVertical = True, chartType = CHART_TYPE_OTHER\<rparr>
     \<lparr>width = Num 1000, height = Num 500\<rparr> = Num 420 \<and>
   ((420::rat) = 0 \<or> 1 / 10 ^ 4 \<le> (420::rat)) \<and> (420::rat) \<le> 10 ^ 9 \<and>
   getCandidateTickCounts \<lparr>isVertical = True, chartType = CHART_TYPE_OTHER\<rparr>
     \<lparr>width = Num 1000, height = Num 500\<rparr> = Some [Num 7, Num 8, Num 9, Num 10] \<and>
   getBaseSize \<lparr>isVertical = True, chartType = CHART_TYPE_OTHER\<rparr>
     \<lparr>width = Num 1000, height = Num 100\<rparr> = Num 20 \<and>
   ((20::rat) = 0 \<or> 1 / 10 ^ 4 \<le> (20::rat)) \<and> (20::rat) \<le> 10 ^ 9 \<and> (20::rat) < 40 \<and>
   getCandidateTickCounts \<lparr>isVertical = True, chartType = CHART_TYPE_OTHER\<rparr>
     \<lparr>width = Num 1000, height = Num 100\<rparr> = Some [Num 0]"
proof -
  have b: "getBaseSize \<lparr>isVertical = True, chartType = CHART_TYPE_OTHER\<rparr>
     \<lparr>width = Num 1000, height = Num 500\<rparr> = Num 420"
    by (simp add: getBaseSize_def CHART_TITLE_HEIGHT_def minus_number_def)
  have h: "(420::rat) = 0 \<or> 1 / 10 ^ 4 \<le> (420::rat)" "(420::rat) \<le> 10 ^ 9"
    by simp_all
  have f: "\<lfloor>420 / 60 :: rat\<rfloor> = 7" "\<lfloor>420 / 40 :: rat\<rfloor> = 10"
    by (simp_all add: floor_eq_iff)
  have u: "[7..10::int] = [7, 8, 9, 10]" by (simp add: upto_rec1)
  from getCandidateTickCounts_plain [OF b h] f u
  have r: "getCandidateTickCounts \<lparr>isVertical = True, chartType = CHART_TYPE_OTHER\<rparr>
     \<lparr>width = Num 1000, height = Num 500\<rparr> = Some [Num 7, Num 8, Num 9, Num 10]"
    by simp
  have b': "getBaseSize \<lparr>isVertical = True, chartType = CHART_TYPE_OTHER\<rparr>
     \<lparr>width = Num 1000, height = Num 100\<rparr> = Num 20"
    by (simp add: getBaseSize_def CHART_TITLE_HEIGHT_def minus_number_def)
  have h': "(20::rat) = 0 \<or> 1 / 10 ^ 4 \<le> (20::rat)" "(20::rat) \<le> 10 ^ 9" "(20::rat) < 40"
    by simp_all
  from getCandidateTickCounts_plain [OF b' h'(1,2)] h'(3)
  have r': "getCandidateTickCounts \<lparr>isVertical = True, chartType = CHART_TYPE_OTHER\<rparr>
     \<lparr>width = Num 1000, height = Num 100\<rparr> = Some [Num 0]"
    by blast
  from b h r b' h' r' show ?thesis by blast
qed

section \<open>Steps that are never normalized\<close>

text \<open>A negative step is multiplied by 10 for ever.\<close>

lemma number_neg_less_one: "stp < Num 0 \<Longrightarrow> stp < Num 1"
  by (cases stp) auto

lemma number_neg_times_ten: "stp < Num 0 \<Longrightarrow> stp * Num 10 < Num 0"
  by (cases stp) (auto simp: mult_less_0_iff)

lemma normalizeStep_Some_not_negative:
  assumes "normalizeStep stp = Some y"
  shows "\<not> stp < Num 0"
proof (rule normalizeStep.raw_induct [where P = "\<lambda>x y. \<not> x < Num 0", OF _ assms])
  fix normalizeStep' :: "number \<Rightarrow> number option" and stp y
  assume IH: "\<And>x y. normalizeStep' x = Some y \<Longrightarrow> \<not> x < Num 0"
    and body: "(if strict_eq stp (Num 0) then Some stp
      else
        let standard = standard_loop stp [Num 1, Num 2, Num 5, Num 10] (Num 0)
        in if standard < Num 1 then
             Option.bind (normalizeStep' (stp * Num 10)) (\<lambda>n. Some (n * Num (1 / 10)))
           else
             let md = ne_util_mod stp standard
             in Some (ne_util_addition stp (if Num 0 < md then standard - md else Num 0))) =
      Some y"
  show "\<not> stp < Num 0"
  proof
    assume neg: "stp < Num 0"
    then have "\<not> strict_eq stp (Num 0)" by (auto simp: strict_eq_def)
    moreover from neg have "stp < Num 1" by (rule number_neg_less_one)
    then have "standard_loop stp [Num 1, Num 2, Num 5, Num 10] (Num 0) = Num 0" by simp
    ultimately have "Option.bind (normalizeStep' (stp * Num 10)) (\<lambda>n. Some (n * Num (1 / 10)))
        = Some y"
      using body by simp
    then obtain n where "normalizeStep' (stp * Num 10) = Some n"
      by (cases "normalizeStep' (stp * Num 10)") auto
    then have "\<not> stp * Num 10 < Num 0" by (rule IH)
    with neg number_neg_times_ten show False by blast
  qed
qed

lemma normalizeStep_negative: "stp < Num 0 \<Longrightarrow> normalizeStep stp = None"
  using normalizeStep_Some_not_negative by (cases "normalizeStep stp") auto


section \<open>The errors of the pipeline\<close>

text \<open>The stages of \<open>_makeTickInfo\<close>.\<close>

lemma makeTickInfo_stages:
  "makeTickInfo this tc mn mx userMin userMax isMinus opts =
     (case normalizeStep (getScaleStep (overriddenScale mn mx isMinus opts) tc) of
        None \<Rightarrow> Some (Inl RangeError)
      | Some stp \<Rightarrow>
          (case minimizeTickScale userMin userMax
                  \<lparr>scale = shiftedScale this userMin userMax opts stp
                             (alignedScale (overriddenScale mn mx isMinus opts) stp tc),
                   step = stp, tickCount = tc, labels = []\<rparr> opts of
             None \<Rightarrow> None
           | Some ti \<Rightarrow> map_option Inr (divideTickStep ti tc)))"
  unfolding makeTickInfo_def overriddenScale_def alignedScale_def shiftedScale_def Let_def
  by (rule refl)

text \<open>
  Normalizing a step recurses without end exactly when the step is negative: zero, the
  positive steps, \<open>NaN\<close> and \<open>Infinity\<close> are normalized.
\<close>

lemma normalizeStep_NaN: "normalizeStep NaN = Some NaN"
  by (subst normalizeStep.simps)
     (simp add: strict_eq_def ne_util_mod_def ne_util_addition_def ne_util_findMultipleNum_def)

lemma normalizeStep_None_iff: "normalizeStep stp = None \<longleftrightarrow> stp < Num 0"
proof
  assume none: "normalizeStep stp = None"
  show "stp < Num 0"
  proof (cases stp)
    case (Num r)
    show ?thesis
    proof (rule ccontr)
      assume "\<not> stp < Num 0"
      with Num have "r = 0 \<or> 0 < r" by auto
      then show False
      proof
        assume "r = 0"
        with Num none show False by (simp add: normalizeStep_zero)
      next
        assume "0 < r"
        from normalizeStep_pos [OF this] Num none show False by auto
      qed
    qed
  next
    case NaN
    with none show ?thesis by (simp add: normalizeStep_NaN)
  next
    case PosInfinity
    with none show ?thesis by (simp add: normalizeStep_PosInfinity)
  next
    case NegInfinity
    then show ?thesis by simp
  qed
next
  assume "stp < Num 0"
  then show "normalizeStep stp = None" by (rule normalizeStep_negative)
qed

text \<open>
  \<open>_makeTickInfo\<close> throws exactly when the raw step is negative, and then the
  \<open>RangeError\<close> of the exhausted call stack.
\<close>

lemma makeTickInfo_Inl:
  "makeTickInfo this tc mn mx userMin userMax isMinus opts = Some (Inl e) \<longleftrightarrow>
     e = RangeError \<and> getScaleStep (overriddenScale mn mx isMinus opts) tc < Num 0"
  unfolding makeTickInfo_stages normalizeStep_None_iff [symmetric]
  by (auto split: option.splits)

lemma map_candidates_Inl:
  "map_candidates f tcs = Some (Inl e) \<Longrightarrow> \<exists>tc\<in>set tcs. f tc = Some (Inl e)"
  by (induction tcs) (auto split: option.splits sum.splits)

lemma getTickInfoCandidates_Inl:
  "getTickInfoCandidates this mn mx tcs opts = Some (Inl e) \<Longrightarrow> e = RangeError"
  unfolding getTickInfoCandidates_def Let_def
  by (auto split: if_splits dest!: map_candidates_Inl simp: makeTickInfo_Inl)

section \<open>The tick count of the options and the chart dimension\<close>

text \<open>Only \<open>_getTickInfo\<close> reads the tick count of the options.\<close>

lemma minimizeTickScale_loop_tickCount [simp]:
  "minimizeTickScale_loop userMin userMax stp tickMin tickMax
     (opts\<lparr>options_tickCount := x\<rparr>) ticks scl =
   minimizeTickScale_loop userMin userMax stp tickMin tickMax opts ticks scl"
  by (induction ticks arbitrary: scl) (simp_all add: Let_def)

lemma minimizeTickScale_tickCount [simp]:
  "minimizeTickScale userMin userMax ti (opts\<lparr>options_tickCount := x\<rparr>) =
   minimizeTickScale userMin userMax ti opts"
  by (simp add: minimizeTickScale_def Let_def cong: option.case_cong)

lemma makeTickInfo_tickCount [simp]:
  "makeTickInfo this tc mn mx userMin userMax isMinus (opts\<lparr>options_tickCount := x\<rparr>) =
   makeTickInfo this tc mn mx userMin userMax isMinus opts"
  by (simp add: makeTickInfo_def Let_def cong: option.case_cong)

lemma getTickInfoCandidates_tickCount [simp]:
  "getTickInfoCandidates this mn mx tcs (opts\<lparr>options_tickCount := x\<rparr>) =
   getTickInfoCandidates this mn mx tcs opts"
  by (simp add: getTickInfoCandidates_def)



lemma map_candidates_length:
  "map_candidates f tcs = Some (Inr tis) \<Longrightarrow> length tis = length tcs"
  by (induction tcs arbitrary: tis) (auto split: option.splits sum.splits)

lemma getTickInfoCandidates_length:
  "getTickInfoCandidates this mn mx tcs opts = Some (Inr cands) \<Longrightarrow> length cands = length tcs"
  unfolding getTickInfoCandidates_def Let_def
  by (auto split: if_splits dest: map_candidates_length)

lemma selectTickInfo_Inl: "selectTickInfo mn mx cands = Inl e \<longleftrightarrow> e = TypeError \<and> cands = []"
  by (cases cands; cases e) simp_all

lemma getTickInfoCandidates_Nil [simp]:
  "getTickInfoCandidates this mn mx [] opts = Some (Inr [])"
  by (simp add: getTickInfoCandidates_def)

text \<open>
  \<open>_getTickInfo\<close> throws the \<open>TypeError\<close> exactly when the list of candidate tick counts
  is empty.
\<close>

lemma getTickInfo_TypeError:
  "getTickInfo this mn mx chartDimension opts = Some (Inl TypeError) \<longleftrightarrow>
     (case options_tickCount opts of None \<Rightarrow> True | Some tc \<Rightarrow> \<not> truthy tc) \<and>
     getCandidateTickCounts this chartDimension = Some []"
proof -
  have *: "(case getTickInfoCandidates this a b tcs o' of
              None \<Rightarrow> None
            | Some (Inl e) \<Rightarrow> Some (Inl e)
            | Some (Inr candidates) \<Rightarrow>
                Some (map_sum id (\<lambda>ti. makeOriginalTypeTickInfo ti dn)
                        (selectTickInfo a b candidates))) = Some (Inl TypeError) \<longleftrightarrow> tcs = []"
    for a b tcs o' dn
  proof (cases "getTickInfoCandidates this a b tcs o'")
    case None
    then show ?thesis by auto
  next
    case (Some r)
    show ?thesis
    proof (cases r)
      case (Inl e)
      with Some have "e = RangeError" by (auto dest: getTickInfoCandidates_Inl)
      moreover from Some Inl have "tcs \<noteq> []" by auto
      ultimately show ?thesis using Some Inl by simp
    next
      case (Inr cands)
      with Some have "length cands = length tcs" by (auto dest: getTickInfoCandidates_length)
      then have "cands = [] \<longleftrightarrow> tcs = []" by auto
      moreover have "map_sum id (\<lambda>ti. makeOriginalTypeTickInfo ti dn) (selectTickInfo a b cands)
          = Inl TypeError \<longleftrightarrow> selectTickInfo a b cands = Inl TypeError"
        by (cases "selectTickInfo a b cands") auto
      ultimately show ?thesis using Some Inr by (simp add: selectTickInfo_Inl)
    qed
  qed
  show ?thesis
    unfolding getTickInfo_def Let_def
    by (cases "options_tickCount opts"; cases "getCandidateTickCounts this chartDimension")
       (auto simp: *)
qed

lemma makeTickInfo_0_40:
  "makeTickInfo \<lparr>isVertical = True, chartType = CHART_TYPE_OTHER\<rparr> (Num 5) (Num 0) (Num 40)
     (Num 0) (Num 40) False
     \<lparr>options_min = None, options_max = None, options_tickCount = Some (Num 5)\<rparr> =
   Some (Inr \<lparr>scale = \<lparr>scale_min = Num 0, scale_max = Num 60\<rparr>, step = Num 20,
          tickCount = Num 4, labels = [Num 0, Num 20, Num 40, Num 60]\<rparr>)"
  by code_simp

lemma getTickInfo_0_40:
  "getTickInfo \<lparr>isVertical = True, chartType = CHART_TYPE_OTHER\<rparr> (Num 0) (Num 40)
     chartDimension
     \<lparr>options_min = None, options_max = None, options_tickCount = Some (Num 5)\<rparr> =
   Some (Inr \<lparr>scale = \<lparr>scale_min = Num 0, scale_max = Num 60\<rparr>, step = Num 20,
          tickCount = Num 4, labels = [Num 0, Num 20, Num 40, Num 60]\<rparr>)"
  by (rule getTickInfo_single [OF _ _ _ _ makeTickInfo_0_40])
     (simp_all add: less_eq_number_def)

text \<open>
  C9 as stated fails: for data from 0 to 40 and the tick count 5 in the options, the raw
  step 10.5 is normalized to 20, the scale \<open>[0, 80]\<close> is tightened to \<open>[0, 60]\<close>, and the
  result has four ticks.
\<close>

theorem getTickInfo_tickCount_counterexample:
  "getTickInfo \<lparr>isVertical = True, chartType = CHART_TYPE_OTHER\<rparr> (Num 0) (Num 40)
     \<lparr>width = Num 1000, height = Num 500\<rparr>
     \<lparr>options_min = None, options_max = None, options_tickCount = Some (Num 5)\<rparr> =
   Some (Inr \<lparr>scale = \<lparr>scale_min = Num 0, scale_max = Num 60\<rparr>, step = Num 20,
          tickCount = Num 4, labels = [Num 0, Num 20, Num 40, Num 60]\<rparr>)"
  by (rule getTickInfo_0_40)

text \<open>
  C9, amended. With a non-zero tick count in the options, the only candidate tick count
  is that one, whatever the chart dimension: the result does not depend on the dimension,
  is never the \<open>TypeError\<close> of an empty candidate list, and is the tick info made for that tick
  count (scaled back to the magnitude of the data). Its \<open>tickCount\<close> is the number of
  labels of the refined scale.
\<close>

theorem getTickInfo_tickCount_override:
  assumes "options_tickCount opts = Some tc" and "truthy tc"
  shows "getTickInfo this mn mx d1 opts = getTickInfo this mn mx d2 opts \<and>
         getTickInfo this mn mx d1 opts \<noteq> Some (Inl TypeError) \<and>
         (getTickInfo this mn mx d1 opts = Some (Inr ti) \<longrightarrow>
            (\<exists>c a b isMinus.
               makeTickInfo this tc a b (info_min (makeIntegerTypeInfo mn mx opts))
                 (info_max (makeIntegerTypeInfo mn mx opts)) isMinus
                 (info_options (makeIntegerTypeInfo mn mx opts)) = Some (Inr c) \<and>
               ti = makeOriginalTypeTickInfo c (divideNum (makeIntegerTypeInfo mn mx opts))) \<and>
            tickCount ti = Num (of_nat (length (labels ti))))"
proof (intro conjI impI)
  show "getTickInfo this mn mx d1 opts = getTickInfo this mn mx d2 opts"
    using assms by (simp add: getTickInfo_tickCount)
  show "getTickInfo this mn mx d1 opts \<noteq> Some (Inl TypeError)"
    using assms by (simp add: getTickInfo_TypeError)
next
  assume r: "getTickInfo this mn mx d1 opts = Some (Inr ti)"
  let ?I = "makeIntegerTypeInfo mn mx opts"
  from r obtain cands where
    cands: "getTickInfoCandidates this (info_min ?I) (info_max ?I) [tc] (info_options ?I)
              = Some (Inr cands)" and
    sel: "map_sum id (\<lambda>ti. makeOriginalTypeTickInfo ti (divideNum ?I))
            (selectTickInfo (info_min ?I) (info_max ?I) cands) = Inr ti"
    using assms by (auto simp: getTickInfo_tickCount split: option.splits sum.splits)
  from sel obtain c where c: "selectTickInfo (info_min ?I) (info_max ?I) cands = Inr c"
    and ti: "ti = makeOriginalTypeTickInfo c (divideNum ?I)"
    by (cases "selectTickInfo (info_min ?I) (info_max ?I) cands") auto
  from c have "c \<in> set cands" by (rule selectTickInfo_mem)
  with cands obtain a b isMinus where
    m: "makeTickInfo this tc a b (info_min ?I) (info_max ?I) isMinus (info_options ?I) =
          Some (Inr c)"
    using getTickInfoCandidates_mem by fastforce
  with ti show "\<exists>c a b isMinus.
               makeTickInfo this tc a b (info_min ?I) (info_max ?I) isMinus
                 (info_options ?I) = Some (Inr c) \<and>
               ti = makeOriginalTypeTickInfo c (divideNum ?I)"
    by blast
  from m have "tickCount c = Num (of_nat (length (labels c)))" by (rule makeTickInfo_labels)
  with ti show "tickCount ti = Num (of_nat (length (labels ti)))"
    by (simp add: makeOriginalTypeTickInfo_labels)
qed

theorem getTickInfo_tickCount_override_witness:
  "options_tickCount \<lparr>options_min = None, options_max = None,
      options_tickCount = Some (Num 5)\<rparr> = Some (Num 5) \<and> truthy (Num 5) \<and>
   getTickInfo \<lparr>isVertical = True, chartType = CHART_TYPE_OTHER\<rparr> (Num 0) (Num 40)
     \<lparr>width = Num 1000, height = Num 500\<rparr>
     \<lparr>options_min = None, options_max = None, options_tickCount = Some (Num 5)\<rparr> =
   getTickInfo \<lparr>isVertical = True, chartType = CHART_TYPE_OTHER\<rparr> (Num 0) (Num 40)
     \<lparr>width = Num 10, height = Num 10\<rparr>
     \<lparr>options_min = None, options_max = None, options_tickCount = Some (Num 5)\<rparr> \<and>
   getTickInfo \<lparr>isVertical = True, chartType = CHART_TYPE_OTHER\<rparr> (Num 0) (Num 40)
     \<lparr>width = Num 1000, height = Num 500\<rparr>
     \<lparr>options_min = None, options_max = None, options_tickCount = Some (Num 5)\<rparr> =
   Some (Inr \<lparr>scale = \<lparr>scale_min = Num 0, scale_max = Num 60\<rparr>, step = Num 20,
          tickCount = Num 4, labels = [Num 0, Num 20, Num 40, Num 60]\<rparr>) \<and>
   tickCount \<lparr>scale = \<lparr>scale_min = Num 0, scale_max = Num 60\<rparr>, step = Num 20,
          tickCount = Num 4, labels = [Num 0, Num 20, Num 40, Num 60]\<rparr> =
   Num (of_nat (length (labels \<lparr>scale = \<lparr>scale_min = Num 0, scale_max = Num 60\<rparr>,
          step = Num 20, tickCount = Num 4, labels = [Num 0, Num 20, Num 40, Num 60]\<rparr>)))"
proof -
  have h1: "options_tickCount \<lparr>options_min = None, options_max = None,
      options_tickCount = Some (Num 5)\<rparr> = Some (Num 5)" by simp
  have h2: "truthy (Num 5)" by simp
  note t = getTickInfo_tickCount_override [OF h1 h2,
      of "\<lparr>isVertical = True, chartType = CHART_TYPE_OTHER\<rparr>" "Num 0" "Num 40"
         "\<lparr>width = Num 1000, height = Num 500\<rparr>" "\<lparr>width = Num 10, height = Num 10\<rparr>"
         "\<lparr>scale = \<lparr>scale_min = Num 0, scale_max = Num 60\<rparr>, step = Num 20,
          tickCount = Num 4, labels = [Num 0, Num 20, Num 40, Num 60]\<rparr>"]
  from t have a: "getTickInfo \<lparr>isVertical = True, chartType = CHART_TYPE_OTHER\<rparr> (Num 0) (Num 40)
     \<lparr>width = Num 1000, height = Num 500\<rparr>
     \<lparr>options_min = None, options_max = None, options_tickCount = Some (Num 5)\<rparr> =
   getTickInfo \<lparr>isVertical = True, chartType = CHART_TYPE_OTHER\<rparr> (Num 0) (Num 40)
     \<lparr>width = Num 10, height = Num 10\<rparr>
     \<lparr>options_min = None, options_max = None, options_tickCount = Some (Num 5)\<rparr>"
    by (rule conjunct1)
  from t getTickInfo_0_40 have b: "tickCount \<lparr>scale = \<lparr>scale_min = Num 0, scale_max = Num 60\<rparr>,
          step = Num 20, tickCount = Num 4, labels = [Num 0, Num 20, Num 40, Num 60]\<rparr> =
   Num (of_nat (length (labels \<lparr>scale = \<lparr>scale_min = Num 0, scale_max = Num 60\<rparr>,
          step = Num 20, tickCount = Num 4, labels = [Num 0, Num 20, Num 40, Num 60]\<rparr>)))"
    by blast
  from h1 h2 a b getTickInfo_0_40 show ?thesis by blast
qed

section \<open>Inputs that are not checked\<close>

lemma overriddenScale_overrides:
  assumes "options_min opts = Some (Num a)" and "a \<noteq> 0"
    and "options_max opts = Some (Num b)" and "b \<noteq> 0"
  shows "overriddenScale mn mx isMinus opts = \<lparr>scale_min = Num a, scale_max = Num b\<rparr>"
  using assms by (simp add: overriddenScale_def Let_def)

text \<open>
  With non-zero overrides \<open>min > max\<close> and a tick count above 1 the raw step is negative.
\<close>

lemma makeTickInfo_min_above_max:
  assumes "options_min opts = Some (Num a)" and "options_max opts = Some (Num b)"
    and "b < a" and "a \<noteq> 0" and "b \<noteq> 0" and "1 < t"
  shows "makeTickInfo this (Num t) mn mx userMin userMax isMinus opts = Some (Inl RangeError)"
proof -
  from assms(3,6) have "(b - a) / (t - 1) < 0" by (simp add: divide_neg_pos)
  with assms(6) have "getScaleStep \<lparr>scale_min = Num a, scale_max = Num b\<rparr> (Num t) < Num 0"
    by (simp add: getScaleStep_def minus_number_def)
  then show ?thesis
    by (simp add: makeTickInfo_Inl overriddenScale_overrides [OF assms(1,4,2,5)])
qed

text \<open>
  A vertical axis of height 100 has the base size 20 and the only candidate tick count 0,
  for which the raw step of the data from 5 to 50 is \<open>52.25 / (0 - 1)\<close>.
\<close>

lemma getCandidateTickCounts_height_100:
  "getCandidateTickCounts \<lparr>isVertical = True, chartType = CHART_TYPE_OTHER\<rparr>
     \<lparr>width = Num 1000, height = Num 100\<rparr> = Some [Num 0]"
  by code_simp

lemma getScaleStep_5_50_0:
  "getScaleStep (overriddenScale (Num 5) (Num 50) False
     \<lparr>options_min = None, options_max = None, options_tickCount = None\<rparr>) (Num 0) =
   Num (- (209 / 4))"
  by code_simp

lemma getTickInfo_height_100:
  "getTickInfo \<lparr>isVertical = True, chartType = CHART_TYPE_OTHER\<rparr> (Num 5) (Num 50)
     \<lparr>width = Num 1000, height = Num 100\<rparr>
     \<lparr>options_min = None, options_max = None, options_tickCount = None\<rparr> =
   Some (Inl RangeError)"
proof -
  have "makeTickInfo \<lparr>isVertical = True, chartType = CHART_TYPE_OTHER\<rparr> (Num 0) (Num 5) (Num 50)
      (Num 5) (Num 50) False
      \<lparr>options_min = None, options_max = None, options_tickCount = None\<rparr> =
    Some (Inl RangeError)"
    by (simp add: makeTickInfo_Inl getScaleStep_5_50_0)
  then have "getTickInfoCandidates \<lparr>isVertical = True, chartType = CHART_TYPE_OTHER\<rparr>
      (Num 5) (Num 50) [Num 0]
      \<lparr>options_min = None, options_max = None, options_tickCount = None\<rparr> =
    Some (Inl RangeError)"
    by (simp add: getTickInfoCandidates_def)
  then show ?thesis
    by (simp add: getTickInfo_def makeIntegerTypeInfo_large less_eq_number_def
          getCandidateTickCounts_height_100)
qed

text \<open>A \<open>RangeError\<close> of \<open>_getTickInfo\<close> is the one of a candidate with a negative raw step.\<close>

lemma getTickInfo_RangeError:
  assumes "getTickInfo this mn mx chartDimension opts = Some (Inl RangeError)"
  shows "\<exists>tc a b isMinus.
           getScaleStep (overriddenScale a b isMinus
             (info_options (makeIntegerTypeInfo mn mx opts))) tc < Num 0"
proof -
  let ?I = "makeIntegerTypeInfo mn mx opts"
  have ns: "map_sum id f (selectTickInfo a b cands) \<noteq> Inl RangeError"
    for f :: "tickInfo \<Rightarrow> tickInfo" and a b cands
    by (cases cands) simp_all
  from assms obtain tcs where
    "getTickInfoCandidates this (info_min ?I) (info_max ?I) tcs (info_options ?I) =
       Some (Inl RangeError)"
    unfolding getTickInfo_def Let_def
    by (auto split: option.splits sum.splits if_splits simp: ns)
  then obtain tc a b isMinus where
    "makeTickInfo this tc a b (info_min ?I) (info_max ?I) isMinus (info_options ?I) =
       Some (Inl RangeError)"
    unfolding getTickInfoCandidates_def Let_def
    by (auto split: if_splits dest!: map_candidates_Inl)
  then show ?thesis by (auto simp: makeTickInfo_Inl)
qed




section \<open>Overridden bounds\<close>

text \<open>
  The loop of \<open>_minimizeTickScale\<close> leaves a bound of the scale as it is, or moves it by a
  whole number of steps from the bound before the loop, and only to a value for which
  the test of the loop body holds.
\<close>

lemma scale_min_updated:
  "scale_min (if q then (if p then scl\<lparr>scale_min := x\<rparr> else scl)\<lparr>scale_max := y\<rparr>
              else (if p then scl\<lparr>scale_min := x\<rparr> else scl)) =
     (if p then x else scale_min scl)"
  by simp

lemma scale_max_updated:
  "scale_max (if q then (if p then scl\<lparr>scale_min := x\<rparr> else scl)\<lparr>scale_max := y\<rparr>
              else (if p then scl\<lparr>scale_min := x\<rparr> else scl)) =
     (if q then y else scale_max scl)"
  by simp

lemma minimizeTickScale_loop_min_shape:
  "scale_min (minimizeTickScale_loop userMin userMax stp tickMin tickMax opts ticks scl) =
     scale_min scl \<or>
   (\<exists>k. k \<in> set ticks \<and>
      scale_min (minimizeTickScale_loop userMin userMax stp tickMin tickMax opts ticks scl) =
        tickMin + stp * k \<and>
      ((options_min opts = None \<and> tickMin + stp * k < userMin) \<or>
       (\<exists>m. options_min opts = Some m \<and> tickMin + stp * k \<le> m)))"
proof (induction ticks arbitrary: scl)
  case Nil
  show ?case by simp
next
  case (Cons tickIndex ticks)
  let ?curMin = "tickMin + stp * tickIndex"
  let ?curMax = "tickMax - stp * tickIndex"
  let ?setMin = "(options_min opts = None \<and> ?curMin < userMin) \<or>
                 (case options_min opts of None \<Rightarrow> False | Some m \<Rightarrow> ?curMin \<le> m)"
  let ?setMax = "(options_min opts = None \<and> userMax < ?curMax) \<or>
                 (case options_max opts of None \<Rightarrow> False | Some m \<Rightarrow> m \<le> ?curMax)"
  let ?scl1 = "if ?setMin then scl\<lparr>scale_min := ?curMin\<rparr> else scl"
  let ?scl2 = "if ?setMax then ?scl1\<lparr>scale_max := ?curMax\<rparr> else ?scl1"
  show ?case
  proof (cases "userMin \<le> ?curMin \<and> ?curMax \<le> userMax")
    case True
    then show ?thesis by (simp add: Let_def)
  next
    case False
    have unfold: "minimizeTickScale_loop userMin userMax stp tickMin tickMax opts
        (tickIndex # ticks) scl =
      minimizeTickScale_loop userMin userMax stp tickMin tickMax opts ticks ?scl2"
      by (subst minimizeTickScale_loop.simps) (simp only: Let_def False if_False)
    from Cons.IH [of ?scl2] show ?thesis
    proof
      assume same: "scale_min (minimizeTickScale_loop userMin userMax stp tickMin tickMax opts
          ticks ?scl2) = scale_min ?scl2"
      show ?thesis
      proof (cases ?setMin)
        case True
        then have guard: "(options_min opts = None \<and> ?curMin < userMin) \<or>
            (\<exists>m. options_min opts = Some m \<and> ?curMin \<le> m)"
          by (auto split: option.splits)
        from True have "(if ?setMin then ?curMin else scale_min scl) = ?curMin" by (rule if_P)
        with scale_min_updated [where p = ?setMin and q = ?setMax
               and scl = scl and x = ?curMin and y = ?curMax]
        have "scale_min ?scl2 = ?curMin" by (rule trans)
        with same unfold guard show ?thesis
          by (intro disjI2 exI [of _ tickIndex]) simp
      next
        case False
        then have "(if ?setMin then ?curMin else scale_min scl) = scale_min scl"
          by (rule if_not_P)
        with scale_min_updated [where p = ?setMin and q = ?setMax
               and scl = scl and x = ?curMin and y = ?curMax]
        have "scale_min ?scl2 = scale_min scl" by (rule trans)
        with same unfold show ?thesis by simp
      qed
    next
      assume "\<exists>k. k \<in> set ticks \<and>
        scale_min (minimizeTickScale_loop userMin userMax stp tickMin tickMax opts ticks ?scl2) =
          tickMin + stp * k \<and>
        ((options_min opts = None \<and> tickMin + stp * k < userMin) \<or>
         (\<exists>m. options_min opts = Some m \<and> tickMin + stp * k \<le> m))"
      then obtain k where "k \<in> set ticks"
        "scale_min (minimizeTickScale_loop userMin userMax stp tickMin tickMax opts ticks ?scl2) =
          tickMin + stp * k"
        "(options_min opts = None \<and> tickMin + stp * k < userMin) \<or>
         (\<exists>m. options_min opts = Some m \<and> tickMin + stp * k \<le> m)"
        by blast
      with unfold show ?thesis
        by (intro disjI2 exI [of _ k]) simp
    qed
  qed
qed

lemma minimizeTickScale_loop_max_shape:
  "scale_max (minimizeTickScale_loop userMin userMax stp tickMin tickMax opts ticks scl) =
     scale_max scl \<or>
   (\<exists>k. k \<in> set ticks \<and>
      scale_max (minimizeTickScale_loop userMin userMax stp tickMin tickMax opts ticks scl) =
        tickMax - stp * k \<and>
      ((options_min opts = None \<and> userMax < tickMax - stp * k) \<or>
       (\<exists>m. options_max opts = Some m \<and> m \<le> tickMax - stp * k)))"
proof (induction ticks arbitrary: scl)
  case Nil
  show ?case by simp
next
  case (Cons tickIndex ticks)
  let ?curMin = "tickMin + stp * tickIndex"
  let ?curMax = "tickMax - stp * tickIndex"
  let ?setMin = "(options_min opts = None \<and> ?curMin < userMin) \<or>
                 (case options_min opts of None \<Rightarrow> False | Some m \<Rightarrow> ?curMin \<le> m)"
  let ?setMax = "(options_min opts = None \<and> userMax < ?curMax) \<or>
                 (case options_max opts of None \<Rightarrow> False | Some m \<Rightarrow> m \<le> ?curMax)"
  let ?scl1 = "if ?setMin then scl\<lparr>scale_min := ?curMin\<rparr> else scl"
  let ?scl2 = "if ?setMax then ?scl1\<lparr>scale_max := ?curMax\<rparr> else ?scl1"
  show ?case
  proof (cases "userMin \<le> ?curMin \<and> ?curMax \<le> userMax")
    case True
    then show ?thesis by (simp add: Let_def)
  next
    case False
    have unfold: "minimizeTickScale_loop userMin userMax stp tickMin tickMax opts
        (tickIndex # ticks) scl =
      minimizeTickScale_loop userMin userMax stp tickMin tickMax opts ticks ?scl2"
      by (subst minimizeTickScale_loop.simps) (simp only: Let_def False if_False)
    from Cons.IH [of ?scl2] show ?thesis
    proof
      assume same: "scale_max (minimizeTickScale_loop userMin userMax stp tickMin tickMax opts
          ticks ?scl2) = scale_max ?scl2"
      show ?thesis
      proof (cases ?setMax)
        case True
        then have guard: "(options_min opts = None \<and> userMax < ?curMax) \<or>
            (\<exists>m. options_max opts = Some m \<and> m \<le> ?curMax)"
          by (auto split: option.splits)
        from True have "(if ?setMax then ?curMax else scale_max scl) = ?curMax" by (rule if_P)
        with scale_max_updated [where p = ?setMin and q = ?setMax
               and scl = scl and x = ?curMin and y = ?curMax]
        have "scale_max ?scl2 = ?curMax" by (rule trans)
        with same unfold guard show ?thesis
          by (intro disjI2 exI [of _ tickIndex]) simp
      next
        case False
        then have "(if ?setMax then ?curMax else scale_max scl) = scale_max scl"
          by (rule if_not_P)
        with scale_max_updated [where p = ?setMin and q = ?setMax
               and scl = scl and x = ?curMin and y = ?curMax]
        have "scale_max ?scl2 = scale_max scl" by (rule trans)
        with same unfold show ?thesis by simp
      qed
    next
      assume "\<exists>k. k \<in> set ticks \<and>
        scale_max (minimizeTickScale_loop userMin userMax stp tickMin tickMax opts ticks ?scl2) =
          tickMax - stp * k \<and>
        ((options_min opts = None \<and> userMax < tickMax - stp * k) \<or>
         (\<exists>m. options_max opts = Some m \<and> m \<le> tickMax - stp * k))"
      then obtain k where "k \<in> set ticks"
        "scale_max (minimizeTickScale_loop userMin userMax stp tickMin tickMax opts ticks ?scl2) =
          tickMax - stp * k"
        "(options_min opts = None \<and> userMax < tickMax - stp * k) \<or>
         (\<exists>m. options_max opts = Some m \<and> m \<le> tickMax - stp * k)"
        by blast
      with unfold show ?thesis
        by (intro disjI2 exI [of _ k]) simp
    qed
  qed
qed

text \<open>The scale that \<open>_minimizeTickScale\<close> returns, and \<open>_divideTickStep\<close> keeps.\<close>

lemma minimizeTickScale_scale:
  assumes "minimizeTickScale userMin userMax ti opts = Some ti'"
  shows "\<exists>ticks. ne_util_range (Num 1) (tickCount ti) None = Some ticks \<and>
           scale ti' = minimizeTickScale_loop userMin userMax (step ti)
                         (scale_min (scale ti)) (scale_max (scale ti)) opts ticks (scale ti)"
  using assms by (auto simp: minimizeTickScale_def Let_def split: option.splits)

lemma divideTickStep_scale: "divideTickStep ti n = Some ti' \<Longrightarrow> scale ti' = scale ti"
  by (auto simp: divideTickStep_def Let_def split: if_splits option.splits)

text \<open>The bounds of the stages of \<open>_makeTickInfo\<close> when a bound is overridden.\<close>

lemma overriddenScale_min:
  "options_min opts = Some m \<Longrightarrow> truthy m \<Longrightarrow> scale_min (overriddenScale mn mx isMinus opts) = m"
  by (simp add: overriddenScale_def Let_def)

lemma overriddenScale_max:
  "options_max opts = Some m \<Longrightarrow> truthy m \<Longrightarrow> scale_max (overriddenScale mn mx isMinus opts) = m"
  by (simp add: overriddenScale_def Let_def)

lemma alignedScale_min: "scale_min (alignedScale scl3 stp tc) = normalizeMin (scale_min scl3) stp"
  by (simp add: alignedScale_def Let_def)

lemma shiftedScale_min:
  "options_min opts \<noteq> None \<Longrightarrow>
   scale_min (shiftedScale this userMin userMax opts stp scl6) = scale_min scl6"
  by (auto simp: shiftedScale_def Let_def)

lemma shiftedScale_max:
  "options_max opts \<noteq> None \<Longrightarrow>
   scale_max (shiftedScale this userMin userMax opts stp scl6) = scale_max scl6"
  by (auto simp: shiftedScale_def Let_def)

lemma makeTickInfo_override_shape:
  assumes "makeTickInfo this tc mn mx userMin userMax isMinus opts = Some (Inr c)"
  shows "\<exists>stp ticks.
           normalizeStep (getScaleStep (overriddenScale mn mx isMinus opts) tc) = Some stp \<and>
           ne_util_range (Num 1) tc None = Some ticks \<and>
           (options_min opts = Some m \<and> truthy m \<longrightarrow>
              scale_min (overriddenScale mn mx isMinus opts) = m \<and>
              (scale_min (scale c) = normalizeMin m stp \<or>
               (\<exists>k. k \<in> set ticks \<and> scale_min (scale c) = normalizeMin m stp + stp * k \<and>
                    normalizeMin m stp + stp * k \<le> m))) \<and>
           (options_max opts = Some M \<and> truthy M \<longrightarrow>
              scale_max (overriddenScale mn mx isMinus opts) = M \<and>
              (options_min opts \<noteq> None \<longrightarrow>
                 scale_max (scale c) =
                   scale_max (alignedScale (overriddenScale mn mx isMinus opts) stp tc) \<or>
                 (\<exists>k. k \<in> set ticks \<and>
                      scale_max (scale c) =
                        scale_max (alignedScale (overriddenScale mn mx isMinus opts) stp tc)
                          - stp * k \<and>
                      M \<le> scale_max (alignedScale (overriddenScale mn mx isMinus opts) stp tc)
                             - stp * k)))"
proof -
  let ?scl3 = "overriddenScale mn mx isMinus opts"
  from assms obtain stp where stp: "normalizeStep (getScaleStep ?scl3 tc) = Some stp"
    unfolding makeTickInfo_stages by (auto split: option.splits)
  let ?scl8 = "shiftedScale this userMin userMax opts stp (alignedScale ?scl3 stp tc)"
  from assms stp obtain ti where
    ti: "minimizeTickScale userMin userMax
           \<lparr>scale = ?scl8, step = stp, tickCount = tc, labels = []\<rparr> opts = Some ti"
    and c: "divideTickStep ti tc = Some c"
    unfolding makeTickInfo_stages by (auto split: option.splits)
  from minimizeTickScale_scale [OF ti] obtain ticks where
    ticks: "ne_util_range (Num 1) tc None = Some ticks"
    and scl: "scale ti = minimizeTickScale_loop userMin userMax stp
                (scale_min ?scl8) (scale_max ?scl8) opts ticks ?scl8"
    by auto
  from divideTickStep_scale [OF c] scl have
    final: "scale c = minimizeTickScale_loop userMin userMax stp
                (scale_min ?scl8) (scale_max ?scl8) opts ticks ?scl8"
    by simp
  have min_part: "scale_min ?scl3 = m \<and>
      (scale_min (scale c) = normalizeMin m stp \<or>
       (\<exists>k. k \<in> set ticks \<and> scale_min (scale c) = normalizeMin m stp + stp * k \<and>
            normalizeMin m stp + stp * k \<le> m))"
    if "options_min opts = Some m \<and> truthy m"
  proof -
    from that have o: "options_min opts = Some m" and t: "truthy m" by simp_all
    from o t have m3: "scale_min ?scl3 = m" by (rule overriddenScale_min)
    from o have "scale_min ?scl8 = scale_min (alignedScale ?scl3 stp tc)"
      by (intro shiftedScale_min) simp
    with m3 have m8: "scale_min ?scl8 = normalizeMin m stp" by (simp add: alignedScale_min)
    have "scale_min (scale c) = scale_min ?scl8 \<or>
       (\<exists>k. k \<in> set ticks \<and> scale_min (scale c) = scale_min ?scl8 + stp * k \<and>
          ((options_min opts = None \<and> scale_min ?scl8 + stp * k < userMin) \<or>
           (\<exists>m. options_min opts = Some m \<and> scale_min ?scl8 + stp * k \<le> m)))"
      unfolding final by (rule minimizeTickScale_loop_min_shape)
    then have "scale_min (scale c) = normalizeMin m stp \<or>
       (\<exists>k. k \<in> set ticks \<and> scale_min (scale c) = normalizeMin m stp + stp * k \<and>
            normalizeMin m stp + stp * k \<le> m)"
      unfolding m8 using o by auto
    with m3 show ?thesis by simp
  qed
  have max_subst: "scale_max ?scl3 = M" if "options_max opts = Some M \<and> truthy M"
  proof -
    from that have "options_max opts = Some M" and "truthy M" by simp_all
    then show ?thesis by (rule overriddenScale_max)
  qed
  have max_part: "scale_max (scale c) = scale_max (alignedScale ?scl3 stp tc) \<or>
       (\<exists>k. k \<in> set ticks \<and>
            scale_max (scale c) = scale_max (alignedScale ?scl3 stp tc) - stp * k \<and>
            M \<le> scale_max (alignedScale ?scl3 stp tc) - stp * k)"
    if "options_max opts = Some M \<and> truthy M" and omin: "options_min opts \<noteq> None"
  proof -
    from that(1) have o: "options_max opts = Some M" by simp
    from o have m8: "scale_max ?scl8 = scale_max (alignedScale ?scl3 stp tc)"
      by (intro shiftedScale_max) simp
    have "scale_max (scale c) = scale_max ?scl8 \<or>
       (\<exists>k. k \<in> set ticks \<and> scale_max (scale c) = scale_max ?scl8 - stp * k \<and>
          ((options_min opts = None \<and> userMax < scale_max ?scl8 - stp * k) \<or>
           (\<exists>m. options_max opts = Some m \<and> m \<le> scale_max ?scl8 - stp * k)))"
      unfolding final by (rule minimizeTickScale_loop_max_shape)
    then show ?thesis
      unfolding m8 using o omin by auto
  qed
  from stp ticks min_part max_subst max_part show ?thesis by blast
qed

text \<open>
  A run with both bounds overridden: data from -7000 to 9000, the overrides
  \<open>min = -8000\<close> and \<open>max = 12000\<close>, and five ticks asked for.
\<close>

lemma makeTickInfo_0_overrides:
  "makeTickInfo \<lparr>isVertical = True, chartType = CHART_TYPE_OTHER\<rparr> (Num 5)
     (Num (- 7000)) (Num 9000) (Num (- 7000)) (Num 9000) False
     \<lparr>options_min = Some (Num (- 8000)), options_max = Some (Num 12000),
      options_tickCount = Some (Num 5)\<rparr> =
   Some (Inr \<lparr>scale = \<lparr>scale_min = Num (- 10000), scale_max = Num 15000\<rparr>, step = Num 5000,
          tickCount = Num 6,
          labels = [Num (- 10000), Num (- 5000), Num 0, Num 5000, Num 10000, Num 15000]\<rparr>)"
  by code_simp

lemma getTickInfo_0_overrides:
  "getTickInfo \<lparr>isVertical = True, chartType = CHART_TYPE_OTHER\<rparr> (Num (- 7000)) (Num 9000)
     chartDimension
     \<lparr>options_min = Some (Num (- 8000)), options_max = Some (Num 12000),
      options_tickCount = Some (Num 5)\<rparr> =
   Some (Inr \<lparr>scale = \<lparr>scale_min = Num (- 10000), scale_max = Num 15000\<rparr>, step = Num 5000,
          tickCount = Num 6,
          labels = [Num (- 10000), Num (- 5000), Num 0, Num 5000, Num 10000, Num 15000]\<rparr>)"
  by (rule getTickInfo_single [OF _ _ _ _ makeTickInfo_0_overrides])
     (simp_all add: less_eq_number_def)

lemma getTickInfo_candidate:
  assumes "getTickInfo this mn mx chartDimension opts = Some (Inr ti)"
  shows "\<exists>c tc a b isMinus.
           makeTickInfo this tc a b (info_min (makeIntegerTypeInfo mn mx opts))
             (info_max (makeIntegerTypeInfo mn mx opts)) isMinus
             (info_options (makeIntegerTypeInfo mn mx opts)) = Some (Inr c) \<and>
           ti = makeOriginalTypeTickInfo c (divideNum (makeIntegerTypeInfo mn mx opts))"
proof -
  from getTickInfo_Inr [OF assms] obtain tcs cands c where
    "getTickInfoCandidates this (info_min (makeIntegerTypeInfo mn mx opts))
       (info_max (makeIntegerTypeInfo mn mx opts)) tcs
       (info_options (makeIntegerTypeInfo mn mx opts)) = Some (Inr cands)"
    and "c \<in> set cands"
    and ti: "ti = makeOriginalTypeTickInfo c (divideNum (makeIntegerTypeInfo mn mx opts))"
    by blast
  from getTickInfoCandidates_mem [OF this(1,2)] ti show ?thesis by blast
qed

text \<open>
  C2 as stated fails: for data from -7000 to 9000, the overrides \<open>min = -8000\<close>,
  \<open>max = 12000\<close> and five ticks, the step is 5000, the minimum is lowered to the multiple
  -10000 of the step and the maximum raised by whole steps to 15000.
\<close>

theorem override_bounds_counterexample:
  "getTickInfo \<lparr>isVertical = True, chartType = CHART_TYPE_OTHER\<rparr> (Num (- 7000)) (Num 9000)
     \<lparr>width = Num 1000, height = Num 500\<rparr>
     \<lparr>options_min = Some (Num (- 8000)), options_max = Some (Num 12000),
      options_tickCount = Some (Num 5)\<rparr> =
   Some (Inr \<lparr>scale = \<lparr>scale_min = Num (- 10000), scale_max = Num 15000\<rparr>, step = Num 5000,
          tickCount = Num 6,
          labels = [Num (- 10000), Num (- 5000), Num 0, Num 5000, Num 10000, Num 15000]\<rparr>)"
  by (rule getTickInfo_0_overrides)

text \<open>
  C2, amended. Every tick info that \<open>_getTickInfo\<close> returns is a candidate made by
  \<open>_makeTickInfo\<close>, divided back by the multiplier of the data. For every candidate
  made, a non-zero override of the minimum replaces the padded minimum exactly in the
  scale from which the step is computed, and the final \<open>scale.min\<close> of the candidate is
  \<open>_normalizeMin\<close> of the override and the normalized step (the override lowered to a
  multiple of the step), or this value raised by the step times a tick index to a value
  that is still not above the override. A non-zero override of the maximum likewise
  replaces the padded maximum exactly in the scale from which the step is computed, and,
  when the minimum is overridden as well, the final \<open>scale.max\<close> is the maximum that
  \<open>_makeTickInfo\<close> recomputes from the aligned minimum and the step, or this value
  lowered by the step times a tick index to a value that is still not below the
  override.
\<close>

theorem override_bounds_aligned:
  "(getTickInfo this mn0 mx0 chartDimension opts0 = Some (Inr ti) \<longrightarrow>
      (\<exists>c tc a b isMinus.
         makeTickInfo this tc a b (info_min (makeIntegerTypeInfo mn0 mx0 opts0))
           (info_max (makeIntegerTypeInfo mn0 mx0 opts0)) isMinus
           (info_options (makeIntegerTypeInfo mn0 mx0 opts0)) = Some (Inr c) \<and>
         ti = makeOriginalTypeTickInfo c (divideNum (makeIntegerTypeInfo mn0 mx0 opts0)))) \<and>
   (makeTickInfo this tc mn mx userMin userMax isMinus opts = Some (Inr c) \<longrightarrow>
      (\<exists>stp ticks.
         normalizeStep (getScaleStep (overriddenScale mn mx isMinus opts) tc) = Some stp \<and>
         ne_util_range (Num 1) tc None = Some ticks \<and>
         (options_min opts = Some m \<and> truthy m \<longrightarrow>
            scale_min (overriddenScale mn mx isMinus opts) = m \<and>
            (scale_min (scale c) = normalizeMin m stp \<or>
             (\<exists>k. k \<in> set ticks \<and> scale_min (scale c) = normalizeMin m stp + stp * k \<and>
                  normalizeMin m stp + stp * k \<le> m))) \<and>
         (options_max opts = Some M \<and> truthy M \<longrightarrow>
            scale_max (overriddenScale mn mx isMinus opts) = M \<and>
            (options_min opts \<noteq> None \<longrightarrow>
               scale_max (scale c) =
                 scale_max (alignedScale (overriddenScale mn mx isMinus opts) stp tc) \<or>
               (\<exists>k. k \<in> set ticks \<and>
                    scale_max (scale c) =
                      scale_max (alignedScale (overriddenScale mn mx isMinus opts) stp tc)
                        - stp * k \<and>
                    M \<le> scale_max (alignedScale (overriddenScale mn mx isMinus opts) stp tc)
                           - stp * k)))))"
proof (intro conjI impI)
  assume "getTickInfo this mn0 mx0 chartDimension opts0 = Some (Inr ti)"
  then show "\<exists>c tc a b isMinus.
         makeTickInfo this tc a b (info_min (makeIntegerTypeInfo mn0 mx0 opts0))
           (info_max (makeIntegerTypeInfo mn0 mx0 opts0)) isMinus
           (info_options (makeIntegerTypeInfo mn0 mx0 opts0)) = Some (Inr c) \<and>
         ti = makeOriginalTypeTickInfo c (divideNum (makeIntegerTypeInfo mn0 mx0 opts0))"
    by (rule getTickInfo_candidate)
next
  assume "makeTickInfo this tc mn mx userMin userMax isMinus opts = Some (Inr c)"
  then show "\<exists>stp ticks.
         normalizeStep (getScaleStep (overriddenScale mn mx isMinus opts) tc) = Some stp \<and>
         ne_util_range (Num 1) tc None = Some ticks \<and>
         (options_min opts = Some m \<and> truthy m \<longrightarrow>
            scale_min (overriddenScale mn mx isMinus opts) = m \<and>
            (scale_min (scale c) = normalizeMin m stp \<or>
             (\<exists>k. k \<in> set ticks \<and> scale_min (scale c) = normalizeMin m stp + stp * k \<and>
                  normalizeMin m stp + stp * k \<le> m))) \<and>
         (options_max opts = Some M \<and> truthy M \<longrightarrow>
            scale_max (overriddenScale mn mx isMinus opts) = M \<and>
            (options_min opts \<noteq> None \<longrightarrow>
               scale_max (scale c) =
                 scale_max (alignedScale (overriddenScale mn mx isMinus opts) stp tc) \<or>
               (\<exists>k. k \<in> set ticks \<and>
                    scale_max (scale c) =
                      scale_max (alignedScale (overriddenScale mn mx isMinus opts) stp tc)
                        - stp * k \<and>
                    M \<le> scale_max (alignedScale (overriddenScale mn mx isMinus opts) stp tc)
                           - stp * k)))"
    by (rule makeTickInfo_override_shape)
qed

theorem override_bounds_aligned_witness:
  "getTickInfo \<lparr>isVertical = True, chartType = CHART_TYPE_OTHER\<rparr> (Num (- 7000)) (Num 9000)
     \<lparr>width = Num 1000, height = Num 500\<rparr>
     \<lparr>options_min = Some (Num (- 8000)), options_max = Some (Num 12000),
      options_tickCount = Some (Num 5)\<rparr> =
   Some (Inr \<lparr>scale = \<lparr>scale_min = Num (- 10000), scale_max = Num 15000\<rparr>, step = Num 5000,
          tickCount = Num 6,
          labels = [Num (- 10000), Num (- 5000), Num 0, Num 5000, Num 10000, Num 15000]\<rparr>) \<and>
   makeTickInfo \<lparr>isVertical = True, chartType = CHART_TYPE_OTHER\<rparr> (Num 5)
     (Num (- 7000)) (Num 9000) (Num (- 7000)) (Num 9000) False
     \<lparr>options_min = Some (Num (- 8000)), options_max = Some (Num 12000),
      options_tickCount = Some (Num 5)\<rparr> =
   Some (Inr \<lparr>scale = \<lparr>scale_min = Num (- 10000), scale_max = Num 15000\<rparr>, step = Num 5000,
          tickCount = Num 6,
          labels = [Num (- 10000), Num (- 5000), Num 0, Num 5000, Num 10000, Num 15000]\<rparr>) \<and>
   (options_min \<lparr>options_min = Some (Num (- 8000)), options_max = Some (Num 12000),
      options_tickCount = Some (Num 5)\<rparr> = Some (Num (- 8000)) \<and> truthy (Num (- 8000))) \<and>
   (options_max \<lparr>options_min = Some (Num (- 8000)), options_max = Some (Num 12000),
      options_tickCount = Some (Num 5)\<rparr> = Some (Num 12000) \<and> truthy (Num 12000)) \<and>
   normalizeStep (getScaleStep (overriddenScale (Num (- 7000)) (Num 9000) False
     \<lparr>options_min = Some (Num (- 8000)), options_max = Some (Num 12000),
      options_tickCount = Some (Num 5)\<rparr>) (Num 5)) = Some (Num 5000) \<and>
   scale_min (overriddenScale (Num (- 7000)) (Num 9000) False
     \<lparr>options_min = Some (Num (- 8000)), options_max = Some (Num 12000),
      options_tickCount = Some (Num 5)\<rparr>) = Num (- 8000) \<and>
   scale_max (overriddenScale (Num (- 7000)) (Num 9000) False
     \<lparr>options_min = Some (Num (- 8000)), options_max = Some (Num 12000),
      options_tickCount = Some (Num 5)\<rparr>) = Num 12000 \<and>
   normalizeMin (Num (- 8000)) (Num 5000) = Num (- 10000) \<and>
   scale_max (alignedScale (overriddenScale (Num (- 7000)) (Num 9000) False
     \<lparr>options_min = Some (Num (- 8000)), options_max = Some (Num 12000),
      options_tickCount = Some (Num 5)\<rparr>) (Num 5000) (Num 5)) = Num 15000"
proof -
  let ?model = "\<lparr>isVertical = True, chartType = CHART_TYPE_OTHER\<rparr>"
  let ?opts = "\<lparr>options_min = Some (Num (- 8000)), options_max = Some (Num 12000),
      options_tickCount = Some (Num 5)\<rparr>"
  let ?c = "\<lparr>scale = \<lparr>scale_min = Num (- 10000), scale_max = Num 15000\<rparr>, step = Num 5000,
          tickCount = Num 6,
          labels = [Num (- 10000), Num (- 5000), Num 0, Num 5000, Num 10000, Num 15000]\<rparr>"
  note t = override_bounds_aligned [where this = ?model and ?mn0.0 = "Num (- 7000)"
      and ?mx0.0 = "Num 9000" and chartDimension = "\<lparr>width = Num 1000, height = Num 500\<rparr>"
      and ?opts0.0 = ?opts and ti = ?c and tc = "Num 5" and mn = "Num (- 7000)"
      and mx = "Num 9000" and userMin = "Num (- 7000)" and userMax = "Num 9000"
      and isMinus = False and opts = ?opts and c = ?c and m = "Num (- 8000)"
      and M = "Num 12000"]
  have run: "getTickInfo ?model (Num (- 7000)) (Num 9000) \<lparr>width = Num 1000, height = Num 500\<rparr>
      ?opts = Some (Inr ?c)"
    by (rule getTickInfo_0_overrides)
  have cand: "makeTickInfo ?model (Num 5) (Num (- 7000)) (Num 9000) (Num (- 7000)) (Num 9000)
      False ?opts = Some (Inr ?c)"
    by (rule makeTickInfo_0_overrides)
  have h1: "options_min ?opts = Some (Num (- 8000)) \<and> truthy (Num (- 8000))" by simp
  have h2: "options_max ?opts = Some (Num 12000) \<and> truthy (Num 12000)" by simp
  from t cand obtain stp where
    stp: "normalizeStep (getScaleStep (overriddenScale (Num (- 7000)) (Num 9000) False ?opts)
            (Num 5)) = Some stp"
    and mn: "scale_min (overriddenScale (Num (- 7000)) (Num 9000) False ?opts) = Num (- 8000)"
    and mx: "scale_max (overriddenScale (Num (- 7000)) (Num 9000) False ?opts) = Num 12000"
    by auto
  have step: "normalizeStep (getScaleStep (overriddenScale (Num (- 7000)) (Num 9000) False ?opts)
            (Num 5)) = Some (Num 5000)"
    by code_simp
  have nm: "normalizeMin (Num (- 8000)) (Num 5000) = Num (- 10000)"
    by code_simp
  have am: "scale_max (alignedScale (overriddenScale (Num (- 7000)) (Num 9000) False ?opts)
      (Num 5000) (Num 5)) = Num 15000"
    by code_simp
  from run cand h1 h2 step mn mx nm am show ?thesis by blast
qed

section \<open>Scales that contain the data\<close>

lemma setValueAxisData_5_50_small:
  "setValueAxisData \<lparr>isVertical = True, chartType = CHART_TYPE_OTHER\<rparr>
     \<lparr>options_min = None, options_max = None, options_tickCount = None\<rparr>
     [[Num 5, Num 50]] \<lparr>width = Num 1000, height = Num 180\<rparr> =
   Some (Inr \<lparr>scale = \<lparr>scale_min = Num 0, scale_max = NaN\<rparr>, step = PosInfinity,
          tickCount = Num 0, labels = []\<rparr>)"
  by code_simp

text \<open>
  C1 fails on the code. For the data 5 and 50 on a vertical axis of height 180 the
  candidate tick counts are 1 and 2. For the tick count 1 the raw step is \<open>52.25 / 0\<close>,
  the scale maximum becomes \<open>NaN\<close>, and this candidate is returned, although the
  candidate of the tick count 2 has the scale from 0 to 60, which contains the data. The
  maximum 50 of the data is not below or equal to the scale maximum \<open>NaN\<close>.
\<close>

theorem scale_misses_data:
  "setValueAxisData \<lparr>isVertical = True, chartType = CHART_TYPE_OTHER\<rparr>
     \<lparr>options_min = None, options_max = None, options_tickCount = None\<rparr>
     [[Num 5, Num 50]] \<lparr>width = Num 1000, height = Num 180\<rparr> =
   Some (Inr \<lparr>scale = \<lparr>scale_min = Num 0, scale_max = NaN\<rparr>, step = PosInfinity,
          tickCount = Num 0, labels = []\<rparr>) \<and>
   (Num 50 \<le> NaN) = False \<and>
   getTickInfoCandidates \<lparr>isVertical = True, chartType = CHART_TYPE_OTHER\<rparr> (Num 5) (Num 50)
     [Num 1, Num 2] \<lparr>options_min = None, options_max = None, options_tickCount = None\<rparr> =
   Some (Inr [\<lparr>scale = \<lparr>scale_min = Num 0, scale_max = NaN\<rparr>, step = PosInfinity,
                tickCount = Num 0, labels = []\<rparr>,
              \<lparr>scale = \<lparr>scale_min = Num 0, scale_max = Num 60\<rparr>, step = Num 60,
                tickCount = Num 2, labels = [Num 0, Num 60]\<rparr>])"
  using setValueAxisData_5_50_small getTickInfoCandidates_5_50
  by (simp add: less_eq_number_def)

section \<open>Data whose minimum equals its maximum\<close>

lemma setValueAxisData_all_5:
  "setValueAxisData \<lparr>isVertical = True, chartType = CHART_TYPE_OTHER\<rparr>
     \<lparr>options_min = None, options_max = None, options_tickCount = None\<rparr>
     [[Num 5, Num 5, Num 5]] \<lparr>width = Num 1000, height = Num 500\<rparr> =
   Some (Inr \<lparr>scale = \<lparr>scale_min = NaN, scale_max = NaN\<rparr>, step = Num 0,
          tickCount = Num 0, labels = []\<rparr>)"
  by code_simp

lemma setValueAxisData_all_5_small:
  "setValueAxisData \<lparr>isVertical = True, chartType = CHART_TYPE_OTHER\<rparr>
     \<lparr>options_min = None, options_max = None, options_tickCount = None\<rparr>
     [[Num 5, Num 5, Num 5]] \<lparr>width = Num 1000, height = Num 180\<rparr> =
   Some (Inr \<lparr>scale = \<lparr>scale_min = NaN, scale_max = NaN\<rparr>, step = NaN,
          tickCount = Num 0, labels = []\<rparr>)"
  by code_simp

text \<open>
  C6 fails on the code: for the data 5, 5, 5 the computation returns a tick info without
  labels whose scale bounds are \<open>NaN\<close>; on a vertical axis of height 180, where the first
  candidate tick count is 1, its step is \<open>NaN\<close> as well.
\<close>

theorem degenerate_range_result:
  "setValueAxisData \<lparr>isVertical = True, chartType = CHART_TYPE_OTHER\<rparr>
     \<lparr>options_min = None, options_max = None, options_tickCount = None\<rparr>
     [[Num 5, Num 5, Num 5]] \<lparr>width = Num 1000, height = Num 500\<rparr> =
   Some (Inr \<lparr>scale = \<lparr>scale_min = NaN, scale_max = NaN\<rparr>, step = Num 0,
          tickCount = Num 0, labels = []\<rparr>) \<and>
   setValueAxisData \<lparr>isVertical = True, chartType = CHART_TYPE_OTHER\<rparr>
     \<lparr>options_min = None, options_max = None, options_tickCount = None\<rparr>
     [[Num 5, Num 5, Num 5]] \<lparr>width = Num 1000, height = Num 180\<rparr> =
   Some (Inr \<lparr>scale = \<lparr>scale_min = NaN, scale_max = NaN\<rparr>, step = NaN,
          tickCount = Num 0, labels = []\<rparr>)"
  using setValueAxisData_all_5 setValueAxisData_all_5_small by (rule conjI)

end
